theory Spec2Isabelle
  imports Complex_Main
begin

chapter \<open>The embedding\<close>

section \<open>Python strings\<close>

text \<open>
  A Python \<open>str\<close> is a list of characters. Characters are the code points below 256
  (the type \<open>char\<close>); the character classes below are Python's on that range.
\<close>

definition lower_char :: "char \<Rightarrow> char" where
  "lower_char c =
     (let n = (of_char c :: nat)
      in if (65 \<le> n \<and> n \<le> 90) \<or> (192 \<le> n \<and> n \<le> 222 \<and> n \<noteq> 215)
         then char_of (n + 32) else c)"

text \<open>\<open>str.lower()\<close>.\<close>

definition lower :: "string \<Rightarrow> string" where
  "lower s = map lower_char s"

text \<open>\<open>str.isspace()\<close> on one character, which is also the regular expression class \<open>\s\<close>.\<close>

definition is_space :: "char \<Rightarrow> bool" where
  "is_space c =
     (let n = (of_char c :: nat)
      in (9 \<le> n \<and> n \<le> 13) \<or> (28 \<le> n \<and> n \<le> 32) \<or> n = 133 \<or> n = 160)"

text \<open>The regular expression class \<open>\d\<close>.\<close>

definition is_digit :: "char \<Rightarrow> bool" where
  "is_digit c = (let n = (of_char c :: nat) in 48 \<le> n \<and> n \<le> 57)"

text \<open>The regular expression class \<open>\w\<close>: alphanumeric characters and the underscore.\<close>

definition is_word :: "char \<Rightarrow> bool" where
  "is_word c =
     (let n = (of_char c :: nat)
      in (48 \<le> n \<and> n \<le> 57) \<or> (65 \<le> n \<and> n \<le> 90) \<or> n = 95 \<or> (97 \<le> n \<and> n \<le> 122)
         \<or> n = 170 \<or> n = 178 \<or> n = 179 \<or> n = 181 \<or> n = 185 \<or> n = 186
         \<or> (188 \<le> n \<and> n \<le> 190) \<or> (192 \<le> n \<and> n \<le> 214) \<or> (216 \<le> n \<and> n \<le> 246)
         \<or> 248 \<le> n)"

text \<open>\<open>str.strip()\<close>, \<open>str.startswith(p)\<close> and \<open>sep.join(xs)\<close>.\<close>

definition strip :: "string \<Rightarrow> string" where
  "strip s = rev (dropWhile is_space (rev (dropWhile is_space s)))"

definition startswith :: "string \<Rightarrow> string \<Rightarrow> bool" where
  "startswith s p = (take (length p) s = p)"

fun join :: "string \<Rightarrow> string list \<Rightarrow> string" where
  "join sep [] = []"
| "join sep [x] = x"
| "join sep (x # y # ys) = x @ sep @ join sep (y # ys)"

text \<open>\<open>sub in s\<close>: some suffix of \<open>s\<close> starts with \<open>sub\<close>.\<close>

fun contains :: "string \<Rightarrow> string \<Rightarrow> bool" where
  "contains [] sub = startswith [] sub"
| "contains (c # cs) sub = (startswith (c # cs) sub \<or> contains cs sub)"

text \<open>\<open>str(n)\<close> for an integer: decimal digits, with a minus sign when negative.\<close>

definition digit_char :: "nat \<Rightarrow> char" where
  "digit_char d = char_of (48 + d)"

fun str_nat :: "nat \<Rightarrow> string" where
  "str_nat n = (if n < 10 then [digit_char n] else str_nat (n div 10) @ [digit_char (n mod 10)])"

declare str_nat.simps [simp del]

definition str_int :: "int \<Rightarrow> string" where
  "str_int i = (if i < 0 then CHR ''-'' # str_nat (nat (- i)) else str_nat (nat i))"

section \<open>Errors\<close>

text \<open>The exceptions that the modelled code raises, handles or lets through.\<close>

datatype py_error =
    KeyError string
  | TypeError
  | OSError
  | ProcessLookupError
  | TimeoutExpired

section \<open>Configuration (\<open>run_qemu_validation.py\<close>)\<close>

text \<open>
  The values of the configuration object after \<open>json.loads\<close>: \<open>None\<close>, a \<open>bool\<close>, an
  \<open>int\<close> or a \<open>str\<close>. The documented keys are strings and booleans; arrays, objects
  and floating-point numbers are not part of this value type.
\<close>

datatype json = JNull | JBool bool | JInt int | JStr string

text \<open>\<open>str(value)\<close>.\<close>

fun py_str :: "json \<Rightarrow> string" where
  "py_str JNull = ''None''"
| "py_str (JBool b) = (if b then ''True'' else ''False'')"
| "py_str (JInt i) = str_int i"
| "py_str (JStr s) = s"

text \<open>Truth value testing, as in \<open>if config.get(key):\<close>.\<close>

fun truthy :: "json \<Rightarrow> bool" where
  "truthy JNull = False"
| "truthy (JBool b) = b"
| "truthy (JInt i) = (i \<noteq> 0)"
| "truthy (JStr s) = (s \<noteq> [])"

type_synonym config = "string \<rightharpoonup> json"

text \<open>
  \<^verbatim>\<open>
  def _coerce_bool(value):
      if isinstance(value, bool):
          return value
      return str(value).lower() == "true"
  \<close>
\<close>

fun coerce_bool :: "json \<Rightarrow> bool" where
  "coerce_bool (JBool b) = b"
| "coerce_bool v = (lower (py_str v) = ''true'')"

text \<open>The table \<open>_DEFAULTS\<close>, in its order, and \<open>dict.setdefault\<close>.\<close>

definition DEFAULTS :: "(string \<times> json) list" where
  "DEFAULTS =
     [(''build_target'', JStr ''DEBUG''),
      (''qemu_path'', JStr ''''),
      (''no_build'', JBool False),
      (''shutdown_after_run'', JBool False)]"

definition setdefault :: "config \<Rightarrow> string \<Rightarrow> json \<Rightarrow> config" where
  "setdefault raw key dflt = (case raw key of None \<Rightarrow> raw(key \<mapsto> dflt) | Some _ \<Rightarrow> raw)"

text \<open>\<open>config[key]\<close> raises \<open>KeyError\<close> for a missing key; \<open>config.get(key)\<close> gives \<open>None\<close>.\<close>

definition getitem :: "config \<Rightarrow> string \<Rightarrow> py_error + json" where
  "getitem cfg key = (case cfg key of None \<Rightarrow> Inl (KeyError key) | Some v \<Rightarrow> Inr v)"

definition get :: "config \<Rightarrow> string \<Rightarrow> json" where
  "get cfg key = (case cfg key of None \<Rightarrow> JNull | Some v \<Rightarrow> v)"

text \<open>
  \<open>_load_config\<close>, from the parsed JSON object \<open>raw\<close> on (the command-line parsing and
  \<open>json.loads\<close> before it are not modelled): the defaults are filled in, then the two
  boolean keys are coerced. Both keys are present by then, so the two \<open>raw[key]\<close>
  reads cannot raise.
\<close>

definition load_config :: "config \<Rightarrow> config" where
  "load_config raw0 =
     (let raw = foldl (\<lambda>r (key, dflt). setdefault r key dflt) raw0 DEFAULTS;
          raw = raw(''no_build'' \<mapsto> JBool (coerce_bool (get raw ''no_build'')));
          raw = raw(''shutdown_after_run'' \<mapsto> JBool (coerce_bool (get raw ''shutdown_after_run'')))
      in raw)"

text \<open>
  The command line composed in \<open>main\<close>. \<open>executable\<close> is \<open>sys.executable\<close> and
  \<open>script\<close> is \<open>str(script)\<close>. The list holds the literal option names and the
  configured values as they are; \<open>config[key]\<close> raises \<open>KeyError\<close> for a missing
  key, in the order of the list display. Inside \<open>if config.get("qemu_path")\<close> the key
  is present, so \<open>config["qemu_path"]\<close> is \<open>get cfg ''qemu_path''\<close>.
  \<^verbatim>\<open>
  cmd = [sys.executable, str(script),
         "--build-target", config["build_target"],
         "--fw-patch-repo", config["fw_patch_repo"],
         "--patina-dxe-core-repo", config["patina_dxe_core_repo"],
         "--platform", config["platform"],
         "--pre-compiled-rom", config["pre_compiled_rom"],
         "--toolchain", config["toolchain"]]
  if config.get("qemu_path"):
      cmd += ["--qemu-path", config["qemu_path"]]
  cmd.append("--headless")
  if config.get("no_build"):
      cmd.append("--no-build")
  if config.get("shutdown_after_run"):
      cmd.append("--shutdown-after-run")
  \<close>
\<close>

definition build_cmd :: "string \<Rightarrow> string \<Rightarrow> config \<Rightarrow> py_error + json list" where
  "build_cmd executable script cfg =
     (case getitem cfg ''build_target'' of Inl e \<Rightarrow> Inl e | Inr build_target \<Rightarrow>
      case getitem cfg ''fw_patch_repo'' of Inl e \<Rightarrow> Inl e | Inr fw_patch_repo \<Rightarrow>
      case getitem cfg ''patina_dxe_core_repo'' of Inl e \<Rightarrow> Inl e | Inr patina_dxe_core_repo \<Rightarrow>
      case getitem cfg ''platform'' of Inl e \<Rightarrow> Inl e | Inr platform \<Rightarrow>
      case getitem cfg ''pre_compiled_rom'' of Inl e \<Rightarrow> Inl e | Inr pre_compiled_rom \<Rightarrow>
      case getitem cfg ''toolchain'' of Inl e \<Rightarrow> Inl e | Inr toolchain \<Rightarrow>
      (let cmd = [JStr executable, JStr script,
                  JStr ''--build-target'', build_target,
                  JStr ''--fw-patch-repo'', fw_patch_repo,
                  JStr ''--patina-dxe-core-repo'', patina_dxe_core_repo,
                  JStr ''--platform'', platform,
                  JStr ''--pre-compiled-rom'', pre_compiled_rom,
                  JStr ''--toolchain'', toolchain];
           cmd = (if truthy (get cfg ''qemu_path'')
                  then cmd @ [JStr ''--qemu-path'', get cfg ''qemu_path''] else cmd);
           cmd = cmd @ [JStr ''--headless''];
           cmd = (if truthy (get cfg ''no_build'') then cmd @ [JStr ''--no-build''] else cmd);
           cmd = (if truthy (get cfg ''shutdown_after_run'')
                  then cmd @ [JStr ''--shutdown-after-run''] else cmd)
       in Inr cmd))"

section \<open>Stream relay (\<open>_stream_reader\<close>)\<close>

text \<open>
  Byte strings are lists of characters. The open files and pipes are named by handles, and
  what a relay does to them is recorded as a list of events, oldest first.
\<close>

datatype handle = ChildStdout | ChildStderr | LogFile | StderrBuffer

datatype io_event = Write handle string | Flush handle | Close handle

text \<open>
  A child stream is given by the results of its successive \<open>readline()\<close> calls; after
  them the stream is at its end and \<open>readline()\<close> returns \<open>b""\<close>. The loop
  \<open>for line in iter(stream.readline, b"")\<close> stops at the first \<open>b""\<close>.
  \<^verbatim>\<open>
  for line in iter(stream.readline, b""):
      log_file_handle.write(line)
      log_file_handle.flush()
      if forward_to is not None:
          forward_to.write(line)
          forward_to.flush()
  stream.close()
  \<close>
\<close>

fun stream_reader_loop ::
  "string list \<Rightarrow> handle \<Rightarrow> handle option \<Rightarrow> io_event list \<Rightarrow> io_event list" where
  "stream_reader_loop [] log_file_handle forward_to tr = tr"
| "stream_reader_loop (line # rest) log_file_handle forward_to tr =
     (if line = [] then tr
      else
        (let tr = tr @ [Write log_file_handle line];
             tr = tr @ [Flush log_file_handle];
             tr = (case forward_to of
                     None \<Rightarrow> tr
                   | Some fwd \<Rightarrow> (tr @ [Write fwd line]) @ [Flush fwd])
         in stream_reader_loop rest log_file_handle forward_to tr))"

definition stream_reader ::
  "handle \<Rightarrow> string list \<Rightarrow> handle \<Rightarrow> handle option \<Rightarrow> io_event list \<Rightarrow> io_event list" where
  "stream_reader stream readlines log_file_handle forward_to tr =
     stream_reader_loop readlines log_file_handle forward_to tr @ [Close stream]"

text \<open>Observations on a list of events: what was written to a handle, in order, and
  whether every write is followed at once by a flush of the same handle.\<close>

fun writes_to :: "handle \<Rightarrow> io_event list \<Rightarrow> string list" where
  "writes_to h [] = []"
| "writes_to h (Write h' line # es) = (if h' = h then line # writes_to h es else writes_to h es)"
| "writes_to h (e # es) = writes_to h es"

fun flushed_each :: "io_event list \<Rightarrow> bool" where
  "flushed_each [] = True"
| "flushed_each [Write h line] = False"
| "flushed_each (Write h line # e # es) = (e = Flush h \<and> flushed_each es)"
| "flushed_each (e # es) = flushed_each es"

section \<open>Processes and the process-tree terminator (\<open>_kill_process_tree\<close>)\<close>

text \<open>
  A \<open>subprocess.Popen\<close> handle: the process identifier and the exit status slot
  \<open>returncode\<close>, \<open>None\<close> until a wait has collected the status.
\<close>

record popen =
  pid :: nat
  returncode :: "int option"

text \<open>Symbolic \<open>pathlib\<close> paths: \<open>Path(s)\<close> and \<open>p / name\<close>.\<close>

datatype path = Path string | Div path string

record timing_data =
  elapsed_seconds :: rat
  elapsed_display :: string

text \<open>What the supervisor does to the outside, oldest first.\<close>

datatype event =
    MkdirParentOf path
  | Spawn "json list"
  | KillPg nat
  | TaskKill nat
  | WriteTiming path timing_data
  | StderrWrite string
  | StderrFlush
  | LogAppend path string

text \<open>
  The state of the outside: \<open>live\<close> holds the identifiers whose process group (POSIX) or
  process tree (Windows) still has a running member.
\<close>

record world =
  live :: "nat set"
  events :: "event list"

definition emit :: "event \<Rightarrow> world \<Rightarrow> world" where
  "emit e w = w\<lparr>events := events w @ [e]\<rparr>"

text \<open>
  \<open>os.killpg(pgid, SIGKILL)\<close>: the group's processes are killed, or \<open>ProcessLookupError\<close>
  is raised when no such group exists. The group is the session that the supervisor itself
  started for its child, so no other failure is modelled.
\<close>

definition killpg :: "nat \<Rightarrow> world \<Rightarrow> (py_error + unit) \<times> world" where
  "killpg pgid w =
     (if pgid \<in> live w
      then (Inr (), emit (KillPg pgid) (w\<lparr>live := live w - {pgid}\<rparr>))
      else (Inl ProcessLookupError, emit (KillPg pgid) w))"

text \<open>
  \<open>subprocess.run(["taskkill", "/T", "/F", "/PID", str(pid)], capture_output=True)\<close>:
  without \<open>check=True\<close> the exit status of \<open>taskkill\<close> is not looked at.
\<close>

definition taskkill :: "nat \<Rightarrow> world \<Rightarrow> world" where
  "taskkill p w = emit (TaskKill p) (w\<lparr>live := live w - {p}\<rparr>)"

text \<open>
  \<^verbatim>\<open>
  def _kill_process_tree(proc):
      if sys.platform == "win32":
          subprocess.run(["taskkill", "/T", "/F", "/PID", str(proc.pid)], capture_output=True)
      else:
          try:
              os.killpg(proc.pid, signal.SIGKILL)
          except ProcessLookupError:
              pass
  \<close>
  The handle is passed through, to show what the call leaves of it.
\<close>

definition kill_process_tree ::
  "bool \<Rightarrow> popen \<Rightarrow> world \<Rightarrow> (py_error + unit) \<times> popen \<times> world" where
  "kill_process_tree win32 proc w =
     (if win32 then (Inr (), proc, taskkill (pid proc) w)
      else
        (case killpg (pid proc) w of
           (Inl ProcessLookupError, w') \<Rightarrow> (Inr (), proc, w')
         | (Inl e, w') \<Rightarrow> (Inl e, proc, w')
         | (Inr u, w') \<Rightarrow> (Inr (), proc, w')))"

text \<open>
  \<open>proc.wait(timeout=t)\<close>, with its outcome given: the exit status, which the call
  records in the handle, or \<open>None\<close> when the timeout expires first
  (\<open>subprocess.TimeoutExpired\<close>).
\<close>

definition wait :: "int option \<Rightarrow> popen \<Rightarrow> (py_error + int) \<times> popen" where
  "wait outcome proc =
     (case outcome of
        None \<Rightarrow> (Inl TimeoutExpired, proc)
      | Some rc \<Rightarrow> (Inr rc, proc\<lparr>returncode := Some rc\<rparr>))"

section \<open>Timing record (\<open>_write_timing\<close>)\<close>

text \<open>
  A Python \<open>float\<close> holds a binary fraction, so the elapsed time is modelled by the
  rational number that the float holds. On a float of the size of an elapsed time,
  \<open>divmod(x, 60)\<close> is exact, and \<open>round\<close> and the \<open>f\<close> format round the held value
  correctly, ties to even; the decimal that \<open>round(x, 2)\<close> denotes is what
  \<open>json.dumps\<close> prints.
\<close>

definition py_divmod :: "rat \<Rightarrow> rat \<Rightarrow> rat \<times> rat" where
  "py_divmod x y = (of_int \<lfloor>x / y\<rfloor>, x - y * of_int \<lfloor>x / y\<rfloor>)"

definition round_half_even :: "rat \<Rightarrow> int" where
  "round_half_even x =
     (let f = \<lfloor>x\<rfloor>; r = x - of_int f
      in if r < 1 / 2 then f
         else if 1 / 2 < r then f + 1
         else if even f then f else f + 1)"

text \<open>\<open>round(x, ndigits)\<close> and \<open>int(x)\<close>, which truncates towards zero.\<close>

definition py_round :: "rat \<Rightarrow> nat \<Rightarrow> rat" where
  "py_round x ndigits = of_int (round_half_even (x * 10 ^ ndigits)) / 10 ^ ndigits"

definition py_int :: "rat \<Rightarrow> int" where
  "py_int x = (if 0 \<le> x then \<lfloor>x\<rfloor> else \<lceil>x\<rceil>)"

text \<open>\<open>format(x, ".pf")\<close>: \<open>p\<close> digits after the point, none and no point for \<open>p = 0\<close>.\<close>

definition zfill :: "nat \<Rightarrow> string \<Rightarrow> string" where
  "zfill p s = replicate (p - length s) CHR ''0'' @ s"

definition format_f :: "nat \<Rightarrow> rat \<Rightarrow> string" where
  "format_f p x =
     (let n = nat (round_half_even (\<bar>x\<bar> * 10 ^ p))
      in (if x < 0 then ''-'' else [])
         @ str_nat (n div 10 ^ p)
         @ (if p = 0 then [] else ''.'' @ zfill p (str_nat (n mod 10 ^ p))))"

text \<open>
  \<^verbatim>\<open>
  minutes, secs = divmod(elapsed_seconds, 60)
  timing_data = {
      "elapsed_seconds": round(elapsed_seconds, 2),
      "elapsed_display": (
          f"{int(minutes)}m {secs:.0f}s" if minutes >= 1
          else f"{secs:.1f}s"
      ),
  }
  \<close>
\<close>

definition timing :: "rat \<Rightarrow> timing_data" where
  "timing elapsed_s =
     (case py_divmod elapsed_s 60 of (minutes, secs) \<Rightarrow>
        \<lparr>elapsed_seconds = py_round elapsed_s 2,
         elapsed_display =
           (if 1 \<le> minutes
            then str_int (py_int minutes) @ ''m '' @ format_f 0 secs @ ''s''
            else format_f 1 secs @ ''s'')\<rparr>)"

text \<open>The record is written to the file beside the log, \<open>log_path.with_suffix(".timing.json")\<close>.\<close>

definition write_timing :: "path \<Rightarrow> rat \<Rightarrow> world \<Rightarrow> world" where
  "write_timing log_path elapsed_s w = emit (WriteTiming log_path (timing elapsed_s)) w"

section \<open>Supervisor (\<open>main\<close>)\<close>

text \<open>
  What the surroundings decide in one run: the platform, \<open>sys.executable\<close>, whether
  \<open>subprocess.Popen\<close> starts the child (its process identifier) or raises, the outcome of
  the wait of \<open>SUBPROCESS_TIMEOUT_SECONDS\<close>, whether the child's group has gone by itself
  when the terminator signals it, the outcome of the wait of
  \<open>THREAD_JOIN_TIMEOUT_SECONDS\<close> after the kill, the measured elapsed time, the
  paths that exist when \<open>main\<close> looks for the post-run artifact, and \<open>str(p)\<close>, the
  text that \<open>pathlib\<close> gives for a path on this platform (its normal form, with the
  platform's separator).
\<close>

record env =
  win32 :: bool
  executable :: string
  popen_result :: "py_error + nat"
  first_wait :: "int option"
  gone_before_kill :: bool
  second_wait :: "int option"
  elapsed :: rat
  existing :: "path set"
  str_of_path :: "path \<Rightarrow> string"

record run_result =
  exit_code :: int
  timed_out :: bool

definition SUBPROCESS_TIMEOUT_SECONDS :: nat where
  "SUBPROCESS_TIMEOUT_SECONDS = 300"

definition as_path :: "json \<Rightarrow> py_error + path" where
  "as_path v = (case v of JStr s \<Rightarrow> Inr (Path s) | _ \<Rightarrow> Inl TypeError)"

definition timeout_msg :: string where
  "timeout_msg = ''ERROR: build_and_run_rust_binary.py timed out after ''
     @ str_nat SUBPROCESS_TIMEOUT_SECONDS @ '' seconds.'' @ [CHR 0x0A]"

text \<open>The failure message, from the text \<open>str(shutdown_drive)\<close> that the f-string puts in.\<close>

definition failure_msg :: "string \<Rightarrow> string" where
  "failure_msg shutdown_drive_text =
     ''ERROR: Boot did not succeed: UefiLogs directory not found in ''
     @ [CHR 0x27] @ shutdown_drive_text @ [CHR 0x27] @ ''.'' @ [CHR 0x0A]"

text \<open>
  The \<open>try\<close> statement of \<open>main\<close>: the bounded wait, and on its timeout the terminator and
  the second, short wait. It gives an error that escapes, or \<open>timed_out\<close>,
  \<open>return_code\<close> and the handle.
  \<^verbatim>\<open>
  timed_out = False
  try:
      return_code = process.wait(timeout=SUBPROCESS_TIMEOUT_SECONDS)
  except subprocess.TimeoutExpired:
      timed_out = True
      _kill_process_tree(process)
      try:
          return_code = process.wait(timeout=THREAD_JOIN_TIMEOUT_SECONDS)
      except subprocess.TimeoutExpired:
          return_code = 1
  \<close>
\<close>

definition bounded_wait ::
  "env \<Rightarrow> popen \<Rightarrow> world \<Rightarrow> (py_error + bool \<times> int \<times> popen) \<times> world" where
  "bounded_wait en process w =
     (case wait (first_wait en) process of
        (Inr return_code, process) \<Rightarrow> (Inr (False, return_code, process), w)
      | (Inl TimeoutExpired, process) \<Rightarrow>
          (let w = (if gone_before_kill en then w\<lparr>live := live w - {pid process}\<rparr> else w)
           in case kill_process_tree (win32 en) process w of
                (Inl e, process, w) \<Rightarrow> (Inl e, w)
              | (Inr u, process, w) \<Rightarrow>
                  (case wait (second_wait en) process of
                     (Inr return_code, process) \<Rightarrow> (Inr (True, return_code, process), w)
                   | (Inl TimeoutExpired, process) \<Rightarrow> (Inr (True, 1, process), w)
                   | (Inl e, process) \<Rightarrow> (Inl e, w)))
      | (Inl e, process) \<Rightarrow> (Inl e, w))"

text \<open>
  The end of \<open>main\<close>, after the timing record is written.
  \<^verbatim>\<open>
  if timed_out:
      sys.stderr.buffer.write(timeout_msg)
      sys.stderr.buffer.flush()
      with log_path.open("ab") as log_fh:
          log_fh.write(timeout_msg)
      return 1
  if config.get("shutdown_after_run"):
      shutdown_drive = pathlib.Path(config["patina_qemu_repo"]) / "Build" / "shutdown_drive"
      if shutdown_drive.exists():
          uefi_logs = shutdown_drive / "UefiLogs"
          if not uefi_logs.exists():
              sys.stderr.buffer.write(failure_msg)
              sys.stderr.buffer.flush()
              with log_path.open("ab") as log_fh:
                  log_fh.write(failure_msg)
              return 1
  return return_code
  \<close>
\<close>

definition report :: "string \<Rightarrow> path \<Rightarrow> world \<Rightarrow> world" where
  "report msg log_path w =
     (let w = emit (StderrWrite msg) w;
          w = emit StderrFlush w
      in emit (LogAppend log_path msg) w)"

definition finish ::
  "env \<Rightarrow> config \<Rightarrow> path \<Rightarrow> path \<Rightarrow> bool \<Rightarrow> int \<Rightarrow> world \<Rightarrow> int \<times> world" where
  "finish en config repo log_path timed_out_v return_code w =
     (if timed_out_v then (1, report timeout_msg log_path w)
      else if truthy (get config ''shutdown_after_run'') then
        (let shutdown_drive = Div (Div repo ''Build'') ''shutdown_drive''
         in if shutdown_drive \<in> existing en then
              (let uefi_logs = Div shutdown_drive ''UefiLogs''
               in if uefi_logs \<notin> existing en
                  then (1, report (failure_msg (str_of_path en shutdown_drive)) log_path w)
                  else (return_code, w))
            else (return_code, w))
      else (return_code, w))"

text \<open>
  \<open>main\<close>, from the parsed JSON object on. The two relay threads run beside the wait and
  are joined with a timeout; what they write is the subject of \<open>stream_reader\<close> and is
  not part of the events here. The result holds the returned exit code and the value
  of the local \<open>timed_out\<close> at the return.
\<close>

definition main :: "env \<Rightarrow> config \<Rightarrow> world \<Rightarrow> (py_error + run_result) \<times> world" where
  "main en raw w =
     (let config = load_config raw in
      case getitem config ''patina_qemu_repo'' of Inl e \<Rightarrow> (Inl e, w) | Inr repo_v \<Rightarrow>
      case as_path repo_v of Inl e \<Rightarrow> (Inl e, w) | Inr repo \<Rightarrow>
      case getitem config ''log_file'' of Inl e \<Rightarrow> (Inl e, w) | Inr log_v \<Rightarrow>
      case as_path log_v of Inl e \<Rightarrow> (Inl e, w) | Inr log_path \<Rightarrow>
      (let script = Div repo ''build_and_run_rust_binary.py'';
           w = emit (MkdirParentOf log_path) w
       in case build_cmd (executable en) (str_of_path en script) config of
            Inl e \<Rightarrow> (Inl e, w)
          | Inr cmd \<Rightarrow>
       case popen_result en of Inl e \<Rightarrow> (Inl e, w) | Inr child \<Rightarrow>
      (let w = emit (Spawn cmd) (w\<lparr>live := insert child (live w)\<rparr>);
           process = \<lparr>pid = child, returncode = None\<rparr>
       in case bounded_wait en process w of
            (Inl e, w) \<Rightarrow> (Inl e, w)
          | (Inr (timed_out_v, return_code, process), w) \<Rightarrow>
      (let w = write_timing log_path (elapsed en) w
       in case finish en config repo log_path timed_out_v return_code w of
            (code, w) \<Rightarrow> (Inr \<lparr>exit_code = code, timed_out = timed_out_v\<rparr>, w)))))"

text \<open>The number of times a terminator has signalled, read off the events.\<close>

fun is_kill :: "event \<Rightarrow> bool" where
  "is_kill (KillPg p) = True"
| "is_kill (TaskKill p) = True"
| "is_kill e = False"

definition kills :: "world \<Rightarrow> nat" where
  "kills w = length (filter is_kill (events w))"

section \<open>Diagnostic extraction (\<open>extract_build_errors.py\<close>)\<close>

text \<open>
  The regular expressions are translated by hand into matchers at the start of the line
  (\<open>re.match\<close>) or anywhere in it (\<open>re.search\<close>). A run \<open>c+\<close> that a character
  outside the class must follow can only be the longest run, so \<open>takeWhile\<close> and
  \<open>dropWhile\<close> give the one way to match.
\<close>

definition NL :: string where
  "NL = [CHR 0x0A]"

text \<open>\<open>:\s\<close>\<close>

definition colon_space :: "string \<Rightarrow> bool" where
  "colon_space r = (case r of c # d # _ \<Rightarrow> c = CHR '':'' \<and> is_space d | _ \<Rightarrow> False)"

text \<open>
  A code in brackets, \<open>\[E\d+\]\<close> or \<open>\[[\w\d]+\]\<close>: the opening text, a non-empty run
  of the class and the closing bracket. The result is the rest of the line.
\<close>

definition bracketed :: "string \<Rightarrow> (char \<Rightarrow> bool) \<Rightarrow> string \<Rightarrow> string option" where
  "bracketed opening cls r =
     (if startswith r opening then
        (let body = drop (length opening) r
         in if takeWhile cls body \<noteq> [] \<and> startswith (dropWhile cls body) '']''
            then Some (drop 1 (dropWhile cls body)) else None)
      else None)"

text \<open>
  \<^verbatim>\<open>SECTION_START_RE = re.compile(r"^(error(\[E\d+\])?:|warning(\[[\w\d]+\])?:)\s")\<close>
\<close>

definition SECTION_START_RE_match :: "string \<Rightarrow> bool" where
  "SECTION_START_RE_match line =
     ((startswith line ''error'' \<and>
        (let r = drop 5 line
         in colon_space r
            \<or> (case bracketed ''[E'' is_digit r of Some r' \<Rightarrow> colon_space r' | None \<Rightarrow> False)))
      \<or> (startswith line ''warning'' \<and>
        (let r = drop 7 line
         in colon_space r
            \<or> (case bracketed ''['' (\<lambda>c. is_word c \<or> is_digit c) r of
                  Some r' \<Rightarrow> colon_space r' | None \<Rightarrow> False))))"

text \<open>
  \<^verbatim>\<open>BUILD_ERROR_RE = re.compile(
      r"\[cargo-make\] ERROR|error: build failed|error: could not compile")\<close>
\<close>

definition BUILD_ERROR_RE_search :: "string \<Rightarrow> bool" where
  "BUILD_ERROR_RE_search line =
     (contains line ''[cargo-make] ERROR'' \<or> contains line ''error: build failed''
      \<or> contains line ''error: could not compile'')"

text \<open>
  \<^verbatim>\<open>RUSTC_GUTTER_RE = re.compile(r"^\s*(\d+\s*[|+\-]|[|]|\.\.\.|:::)\s?")\<close>
\<close>

definition RUSTC_GUTTER_RE_match :: "string \<Rightarrow> bool" where
  "RUSTC_GUTTER_RE_match line =
     (let r = dropWhile is_space line
      in (takeWhile is_digit r \<noteq> [] \<and>
            (case dropWhile is_space (dropWhile is_digit r) of
               [] \<Rightarrow> False
             | c # _ \<Rightarrow> c = CHR ''|'' \<or> c = CHR ''+'' \<or> c = CHR ''-''))
         \<or> startswith r ''|'' \<or> startswith r ''...'' \<or> startswith r '':::'')"

text \<open>
  \<^verbatim>\<open>RUSTC_INFO_RE = re.compile(r"^For more information about this error")\<close>
\<close>

definition RUSTC_INFO_RE_match :: "string \<Rightarrow> bool" where
  "RUSTC_INFO_RE_match line = startswith line ''For more information about this error''"

text \<open>The test \<open>is_continuation\<close> in the loop of \<open>extract_error_sections\<close>.\<close>

definition is_continuation :: "string \<Rightarrow> bool" where
  "is_continuation line =
     (let stripped = strip line
      in startswith stripped ''|''
         \<or> startswith stripped ''-->''
         \<or> startswith stripped ''=''
         \<or> startswith stripped ''help:''
         \<or> startswith stripped ''note:''
         \<or> RUSTC_GUTTER_RE_match line
         \<or> RUSTC_INFO_RE_match line
         \<or> stripped = [])"

text \<open>
  The loop of \<open>extract_error_sections\<close>, with its three variables.
  \<^verbatim>\<open>
  for line in lines:
      if SECTION_START_RE.match(line):
          if current_section:
              sections.append("\n".join(current_section))
          current_section = [line]
          in_section = True
      elif in_section:
          ...
          if is_continuation:
              current_section.append(line)
          else:
              sections.append("\n".join(current_section))
              current_section = []
              in_section = False
              if BUILD_ERROR_RE.search(line):
                  sections.append(line)
      elif BUILD_ERROR_RE.search(line):
          sections.append(line)
  if current_section:
      sections.append("\n".join(current_section))
  return sections
  \<close>
\<close>

fun extract_loop ::
  "string list \<Rightarrow> string list \<Rightarrow> string list \<Rightarrow> bool \<Rightarrow> string list \<times> string list \<times> bool" where
  "extract_loop [] sections current_section in_section =
     (sections, current_section, in_section)"
| "extract_loop (line # lines) sections current_section in_section =
     (if SECTION_START_RE_match line then
        extract_loop lines
          (if current_section \<noteq> [] then sections @ [join NL current_section] else sections)
          [line] True
      else if in_section then
        (if is_continuation line then
           extract_loop lines sections (current_section @ [line]) in_section
         else
           extract_loop lines
             (if BUILD_ERROR_RE_search line
              then (sections @ [join NL current_section]) @ [line]
              else sections @ [join NL current_section])
             [] False)
      else if BUILD_ERROR_RE_search line then
        extract_loop lines (sections @ [line]) current_section in_section
      else extract_loop lines sections current_section in_section)"

definition extract_error_sections :: "string list \<Rightarrow> string list" where
  "extract_error_sections lines =
     (case extract_loop lines [] [] False of
        (sections, current_section, in_section) \<Rightarrow>
          if current_section \<noteq> [] then sections @ [join NL current_section] else sections)"

section \<open>Auxiliary notions for the statements\<close>

text \<open>The three optional flags, and the values that \<open>main\<close> copies into the command line.\<close>

definition option_flags :: "json set" where
  "option_flags = {JStr ''--qemu-path'', JStr ''--no-build'', JStr ''--shutdown-after-run''}"

definition passed_values :: "string \<Rightarrow> string \<Rightarrow> config \<Rightarrow> json list" where
  "passed_values exe script cfg =
     [JStr exe, JStr script, get cfg ''build_target'', get cfg ''fw_patch_repo'',
      get cfg ''patina_dxe_core_repo'', get cfg ''platform'', get cfg ''pre_compiled_rom'',
      get cfg ''toolchain'', get cfg ''qemu_path'']"

text \<open>The command line in closed form.\<close>

definition cmd_of :: "string \<Rightarrow> string \<Rightarrow> config \<Rightarrow> json list" where
  "cmd_of exe script cfg =
     [JStr exe, JStr script,
      JStr ''--build-target'', get cfg ''build_target'',
      JStr ''--fw-patch-repo'', get cfg ''fw_patch_repo'',
      JStr ''--patina-dxe-core-repo'', get cfg ''patina_dxe_core_repo'',
      JStr ''--platform'', get cfg ''platform'',
      JStr ''--pre-compiled-rom'', get cfg ''pre_compiled_rom'',
      JStr ''--toolchain'', get cfg ''toolchain'']
     @ (if truthy (get cfg ''qemu_path'') then [JStr ''--qemu-path'', get cfg ''qemu_path''] else [])
     @ [JStr ''--headless'']
     @ (if truthy (get cfg ''no_build'') then [JStr ''--no-build''] else [])
     @ (if truthy (get cfg ''shutdown_after_run'') then [JStr ''--shutdown-after-run''] else [])"

text \<open>A configuration object with the required keys only, for the examples.\<close>

definition example_raw :: config where
  "example_raw =
     [''patina_qemu_repo'' \<mapsto> JStr ''/w/qemu'',
      ''log_file'' \<mapsto> JStr ''/w/build.log'',
      ''fw_patch_repo'' \<mapsto> JStr ''/w/fw'',
      ''patina_dxe_core_repo'' \<mapsto> JStr ''/w/dxe'',
      ''platform'' \<mapsto> JStr ''Q35'',
      ''pre_compiled_rom'' \<mapsto> JStr ''/w/rom.fd'',
      ''toolchain'' \<mapsto> JStr ''GCC5'']"

text \<open>
  The child is launched: the configuration object has the two paths that \<open>main\<close> reads
  as strings and the other required keys, and \<open>subprocess.Popen\<close> gives a process.
\<close>

definition launched :: "env \<Rightarrow> config \<Rightarrow> string \<Rightarrow> string \<Rightarrow> nat \<Rightarrow> bool" where
  "launched en raw repo log_file child =
     (raw ''patina_qemu_repo'' = Some (JStr repo) \<and> raw ''log_file'' = Some (JStr log_file)
      \<and> raw ''fw_patch_repo'' \<noteq> None \<and> raw ''patina_dxe_core_repo'' \<noteq> None
      \<and> raw ''platform'' \<noteq> None \<and> raw ''pre_compiled_rom'' \<noteq> None
      \<and> raw ''toolchain'' \<noteq> None \<and> popen_result en = Inr child)"

text \<open>The two paths of the post-run check, and whether the check fails.\<close>

definition shutdown_drive_of :: "string \<Rightarrow> path" where
  "shutdown_drive_of repo = Div (Div (Path repo) ''Build'') ''shutdown_drive''"

definition uefi_logs_of :: "string \<Rightarrow> path" where
  "uefi_logs_of repo = Div (shutdown_drive_of repo) ''UefiLogs''"

definition check_fails :: "env \<Rightarrow> config \<Rightarrow> string \<Rightarrow> bool" where
  "check_fails en raw repo =
     (truthy (get (load_config raw) ''shutdown_after_run'')
      \<and> shutdown_drive_of repo \<in> existing en \<and> uefi_logs_of repo \<notin> existing en)"

text \<open>The events of a run up to the wait, and a run's surroundings for the examples.\<close>

definition launch_events :: "env \<Rightarrow> config \<Rightarrow> string \<Rightarrow> string \<Rightarrow> event list" where
  "launch_events en raw repo log_file =
     [MkdirParentOf (Path log_file),
      Spawn (cmd_of (executable en)
        (str_of_path en (Div (Path repo) ''build_and_run_rust_binary.py''))
        (load_config raw))]"

text \<open>
  What \<open>str\<close> gives on POSIX for the two paths that \<open>main\<close> renders in the examples;
  no other path is rendered there.
\<close>

definition example_str :: "path \<Rightarrow> string" where
  "example_str p =
     (if p = Div (Path ''/w/qemu'') ''build_and_run_rust_binary.py''
      then ''/w/qemu/build_and_run_rust_binary.py''
      else if p = shutdown_drive_of ''/w/qemu''
      then ''/w/qemu/Build/shutdown_drive''
      else undefined)"

definition example_env :: "int option \<Rightarrow> int option \<Rightarrow> path set \<Rightarrow> env" where
  "example_env w1 w2 ps =
     \<lparr>win32 = False, executable = ''python'', popen_result = Inr 7, first_wait = w1,
      gone_before_kill = False, second_wait = w2, elapsed = 2, existing = ps,
      str_of_path = example_str\<rparr>"

text \<open>The messages among the events: what goes to the error channel or is appended to the log.\<close>

fun is_message :: "event \<Rightarrow> bool" where
  "is_message (StderrWrite msg) = True"
| "is_message (LogAppend p msg) = True"
| "is_message e = False"

definition world0 :: world where
  "world0 = \<lparr>live = {}, events = []\<rparr>"

text \<open>The invariant of the extraction loop: what a finished section and the open block look like,
  over the set \<open>A\<close> of input lines.\<close>

definition block_lines :: "string list \<Rightarrow> bool" where
  "block_lines b = (case b of [] \<Rightarrow> False
     | l # ls \<Rightarrow> SECTION_START_RE_match l
         \<and> list_all (\<lambda>c. is_continuation c \<and> \<not> SECTION_START_RE_match c) ls)"

definition section_ok :: "string set \<Rightarrow> string \<Rightarrow> bool" where
  "section_ok A s =
     ((\<exists>b. s = join NL b \<and> block_lines b \<and> set b \<subseteq> A)
      \<or> (s \<in> A \<and> BUILD_ERROR_RE_search s \<and> \<not> SECTION_START_RE_match s))"

definition loop_inv :: "string set \<Rightarrow> string list \<Rightarrow> string list \<Rightarrow> bool \<Rightarrow> bool" where
  "loop_inv A sections current in_section =
     (list_all (section_ok A) sections
      \<and> (current = [] \<or> (block_lines current \<and> set current \<subseteq> A))
      \<and> (in_section = (current \<noteq> [])))"

chapter \<open>Properties\<close>

section \<open>Strings\<close>

lemma of_char_digit_char: "d < 10 \<Longrightarrow> (of_char (digit_char d) :: nat) = 48 + d"
  by (simp add: digit_char_def)

lemma is_digit_digit_char: "d < 10 \<Longrightarrow> is_digit (digit_char d)"
  by (simp add: is_digit_def of_char_digit_char)

lemma str_nat_digits: "\<forall>c \<in> set (str_nat n). is_digit c"
proof (induction n rule: str_nat.induct)
  case (1 n)
  show ?case
  proof (cases "n < 10")
    case True
    then show ?thesis
      by (simp add: str_nat.simps [of n] is_digit_digit_char)
  next
    case False
    with "1" show ?thesis
      by (simp add: str_nat.simps [of n] is_digit_digit_char)
  qed
qed

lemma str_nat_nonempty: "str_nat n \<noteq> []"
  by (simp add: str_nat.simps [of n])

lemma lower_char_digit: "is_digit c \<Longrightarrow> lower_char c = c"
  by (simp add: is_digit_def lower_char_def Let_def)

lemma lower_str_nat: "lower (str_nat n) = str_nat n"
  unfolding lower_def using str_nat_digits [of n]
  by (simp add: map_idI lower_char_digit)

lemma str_nat_not_true: "str_nat n \<noteq> ''true''"
proof
  assume "str_nat n = ''true''"
  with str_nat_digits [of n] have "is_digit CHR ''t''"
    by simp
  then show False
    by (simp add: is_digit_def)
qed

lemma lower_str_int_not_true: "lower (str_int i) \<noteq> ''true''"
proof (cases "i < 0")
  case True
  then show ?thesis
    by (simp add: str_int_def lower_def lower_char_def)
next
  case False
  then show ?thesis
    using lower_str_nat [of "nat i"] str_nat_not_true [of "nat i"]
    by (simp add: str_int_def)
qed

section \<open>Configuration\<close>

lemma load_config_no_build:
  "load_config raw ''no_build'' =
     Some (JBool (coerce_bool (case raw ''no_build'' of None \<Rightarrow> JBool False | Some v \<Rightarrow> v)))"
  by (simp add: load_config_def DEFAULTS_def setdefault_def get_def Let_def split: option.splits)

lemma load_config_shutdown_after_run:
  "load_config raw ''shutdown_after_run'' =
     Some (JBool (coerce_bool
       (case raw ''shutdown_after_run'' of None \<Rightarrow> JBool False | Some v \<Rightarrow> v)))"
  by (simp add: load_config_def DEFAULTS_def setdefault_def get_def Let_def split: option.splits)

text \<open>
  C10. A boolean passes through \<open>_coerce_bool\<close> unchanged; any other value becomes
  \<open>True\<close> exactly when its string form, lowercased, is \<open>"true"\<close>, which \<open>None\<close> and the
  integers never are; and \<open>_load_config\<close> stores that coercion of the supplied value
  under \<open>no_build\<close> and \<open>shutdown_after_run\<close>, so that the strings \<open>"1"\<close>, \<open>"yes"\<close> and
  \<open>"on"\<close> resolve to \<open>False\<close> there, while \<open>"true"\<close> in any capitalisation resolves to
  \<open>True\<close>.
\<close>

theorem coerce_bool_true_only:
  "coerce_bool (JBool b) = b
   \<and> ((\<forall>b. v \<noteq> JBool b) \<longrightarrow> coerce_bool v = (lower (py_str v) = ''true''))
   \<and> coerce_bool (JStr s) = (lower s = ''true'')
   \<and> coerce_bool JNull = False
   \<and> coerce_bool (JInt i) = False
   \<and> (raw ''no_build'' = Some v \<longrightarrow>
        load_config raw ''no_build'' = Some (JBool (coerce_bool v)))
   \<and> (raw ''shutdown_after_run'' = Some v \<longrightarrow>
        load_config raw ''shutdown_after_run'' = Some (JBool (coerce_bool v)))
   \<and> (t \<in> {''1'', ''yes'', ''on''} \<longrightarrow>
        load_config [''no_build'' \<mapsto> JStr t] ''no_build'' = Some (JBool False) \<and>
        load_config [''shutdown_after_run'' \<mapsto> JStr t] ''shutdown_after_run''
          = Some (JBool False))
   \<and> coerce_bool (JStr ''true'') \<and> coerce_bool (JStr ''True'') \<and> coerce_bool (JStr ''TRUE'')"
proof -
  have bool: "coerce_bool (JBool b) = b"
    by simp
  have other: "(\<forall>b. v \<noteq> JBool b) \<longrightarrow> coerce_bool v = (lower (py_str v) = ''true'')"
    by (cases v) auto
  have str: "coerce_bool (JStr s) = (lower s = ''true'')"
    by simp
  have null: "coerce_bool JNull = False"
    by (simp add: lower_def lower_char_def)
  have num: "coerce_bool (JInt i) = False"
    by (simp add: lower_str_int_not_true)
  have nb: "raw ''no_build'' = Some v \<longrightarrow>
      load_config raw ''no_build'' = Some (JBool (coerce_bool v))"
    by (simp add: load_config_no_build)
  have sar: "raw ''shutdown_after_run'' = Some v \<longrightarrow>
      load_config raw ''shutdown_after_run'' = Some (JBool (coerce_bool v))"
    by (simp add: load_config_shutdown_after_run)
  have words: "t \<in> {''1'', ''yes'', ''on''} \<longrightarrow>
        load_config [''no_build'' \<mapsto> JStr t] ''no_build'' = Some (JBool False) \<and>
        load_config [''shutdown_after_run'' \<mapsto> JStr t] ''shutdown_after_run''
          = Some (JBool False)"
    by (auto simp add: load_config_no_build load_config_shutdown_after_run lower_def
        lower_char_def)
  have caps: "coerce_bool (JStr ''true'') \<and> coerce_bool (JStr ''True'')
      \<and> coerce_bool (JStr ''TRUE'')"
    by (simp add: lower_def lower_char_def char_of_eq_iff)
  from bool other str null num nb sar words caps show ?thesis
    by blast
qed

theorem coerce_bool_true_only_witness:
  "coerce_bool (JStr ''yes'') = (lower (py_str (JStr ''yes'')) = ''true'')
   \<and> load_config [''no_build'' \<mapsto> JStr ''yes''] ''no_build'' = Some (JBool False)
   \<and> load_config [''shutdown_after_run'' \<mapsto> JStr ''yes''] ''shutdown_after_run''
       = Some (JBool False)
   \<and> load_config [''no_build'' \<mapsto> JStr ''on''] ''no_build'' = Some (JBool False)"
proof -
  have e: "coerce_bool (JStr ''yes'') = False"
    by (simp add: lower_def lower_char_def)
  show ?thesis
    using coerce_bool_true_only
      [of True "JStr ''yes''" "''yes''" 0 "[''no_build'' \<mapsto> JStr ''yes'']" "''on''"]
      coerce_bool_true_only
      [of True "JStr ''yes''" "''yes''" 0 "[''shutdown_after_run'' \<mapsto> JStr ''yes'']" "''on''"]
      e
    by simp
qed

section \<open>Command line\<close>

lemma build_cmd_keys:
  assumes "build_cmd exe script cfg = Inr cmd"
  shows "cfg ''build_target'' \<noteq> None \<and> cfg ''fw_patch_repo'' \<noteq> None
    \<and> cfg ''patina_dxe_core_repo'' \<noteq> None \<and> cfg ''platform'' \<noteq> None
    \<and> cfg ''pre_compiled_rom'' \<noteq> None \<and> cfg ''toolchain'' \<noteq> None"
  using assms
  by (simp add: build_cmd_def getitem_def split: option.splits)

lemma build_cmd_present:
  assumes "cfg ''build_target'' = Some a" "cfg ''fw_patch_repo'' = Some b"
    "cfg ''patina_dxe_core_repo'' = Some c" "cfg ''platform'' = Some d"
    "cfg ''pre_compiled_rom'' = Some e" "cfg ''toolchain'' = Some f"
  shows "build_cmd exe script cfg = Inr (cmd_of exe script cfg)"
  using assms
  by (simp add: build_cmd_def getitem_def get_def cmd_of_def Let_def)

lemma build_cmd_Inr:
  assumes "build_cmd exe script cfg = Inr cmd"
  shows "cmd = cmd_of exe script cfg"
proof -
  from build_cmd_keys [OF assms] obtain a b c d e f where
    "cfg ''build_target'' = Some a" "cfg ''fw_patch_repo'' = Some b"
    "cfg ''patina_dxe_core_repo'' = Some c" "cfg ''platform'' = Some d"
    "cfg ''pre_compiled_rom'' = Some e" "cfg ''toolchain'' = Some f"
    by blast
  from build_cmd_present [OF this, of exe script] assms show ?thesis
    by simp
qed

lemma load_config_example_raw:
  "load_config (example_raw(''qemu_path'' \<mapsto> q, ''shutdown_after_run'' \<mapsto> JBool s)) =
     example_raw(''qemu_path'' \<mapsto> q, ''shutdown_after_run'' \<mapsto> JBool s,
       ''build_target'' \<mapsto> JStr ''DEBUG'', ''no_build'' \<mapsto> JBool False)"
  by (simp add: load_config_def DEFAULTS_def setdefault_def get_def example_raw_def
      fun_upd_twist)

text \<open>
  C7. For every configuration for which the command line is composed, it starts with the
  interpreter and the script, then the six required flags, each followed by its
  configured value; what follows these fourteen tokens is \<open>--qemu-path\<close> with its value
  exactly when \<open>qemu_path\<close> is truthy, then always \<open>--headless\<close>, then \<open>--no-build\<close>
  exactly when \<open>no_build\<close> is truthy, then \<open>--shutdown-after-run\<close> exactly when
  \<open>shutdown_after_run\<close> is truthy, and nothing else. So each optional flag is on the
  command line when its field is set; and when no value copied into the command line is
  itself the text of an optional flag, it is there only then.
\<close>

theorem build_cmd_flags:
  assumes "build_cmd exe script cfg = Inr cmd"
  shows "take 14 cmd =
     [JStr exe, JStr script,
      JStr ''--build-target'', get cfg ''build_target'',
      JStr ''--fw-patch-repo'', get cfg ''fw_patch_repo'',
      JStr ''--patina-dxe-core-repo'', get cfg ''patina_dxe_core_repo'',
      JStr ''--platform'', get cfg ''platform'',
      JStr ''--pre-compiled-rom'', get cfg ''pre_compiled_rom'',
      JStr ''--toolchain'', get cfg ''toolchain'']
    \<and> drop 14 cmd =
      (if truthy (get cfg ''qemu_path'') then [JStr ''--qemu-path'', get cfg ''qemu_path''] else [])
      @ [JStr ''--headless'']
      @ (if truthy (get cfg ''no_build'') then [JStr ''--no-build''] else [])
      @ (if truthy (get cfg ''shutdown_after_run'') then [JStr ''--shutdown-after-run''] else [])
    \<and> JStr ''--headless'' \<in> set cmd
    \<and> (truthy (get cfg ''qemu_path'') \<longrightarrow> JStr ''--qemu-path'' \<in> set cmd)
    \<and> (truthy (get cfg ''no_build'') \<longrightarrow> JStr ''--no-build'' \<in> set cmd)
    \<and> (truthy (get cfg ''shutdown_after_run'') \<longrightarrow> JStr ''--shutdown-after-run'' \<in> set cmd)
    \<and> (set (passed_values exe script cfg) \<inter> option_flags = {} \<longrightarrow>
        (JStr ''--qemu-path'' \<in> set cmd \<longleftrightarrow> truthy (get cfg ''qemu_path''))
        \<and> (JStr ''--no-build'' \<in> set cmd \<longleftrightarrow> truthy (get cfg ''no_build''))
        \<and> (JStr ''--shutdown-after-run'' \<in> set cmd
            \<longleftrightarrow> truthy (get cfg ''shutdown_after_run'')))"
proof -
  have cmd: "cmd = cmd_of exe script cfg"
    using assms by (rule build_cmd_Inr)
  have a: "take 14 (cmd_of exe script cfg) =
     [JStr exe, JStr script,
      JStr ''--build-target'', get cfg ''build_target'',
      JStr ''--fw-patch-repo'', get cfg ''fw_patch_repo'',
      JStr ''--patina-dxe-core-repo'', get cfg ''patina_dxe_core_repo'',
      JStr ''--platform'', get cfg ''platform'',
      JStr ''--pre-compiled-rom'', get cfg ''pre_compiled_rom'',
      JStr ''--toolchain'', get cfg ''toolchain'']"
    by (simp add: cmd_of_def)
  have b: "drop 14 (cmd_of exe script cfg) =
      (if truthy (get cfg ''qemu_path'') then [JStr ''--qemu-path'', get cfg ''qemu_path''] else [])
      @ [JStr ''--headless'']
      @ (if truthy (get cfg ''no_build'') then [JStr ''--no-build''] else [])
      @ (if truthy (get cfg ''shutdown_after_run'') then [JStr ''--shutdown-after-run''] else [])"
    by (simp add: cmd_of_def)
  have c: "JStr ''--headless'' \<in> set (cmd_of exe script cfg)"
    by (simp add: cmd_of_def)
  have d: "truthy (get cfg ''qemu_path'') \<longrightarrow> JStr ''--qemu-path'' \<in> set (cmd_of exe script cfg)"
    by (simp add: cmd_of_def)
  have e: "truthy (get cfg ''no_build'') \<longrightarrow> JStr ''--no-build'' \<in> set (cmd_of exe script cfg)"
    by (simp add: cmd_of_def)
  have f: "truthy (get cfg ''shutdown_after_run'')
      \<longrightarrow> JStr ''--shutdown-after-run'' \<in> set (cmd_of exe script cfg)"
    by (simp add: cmd_of_def)
  have g: "set (passed_values exe script cfg) \<inter> option_flags = {} \<longrightarrow>
      (JStr ''--qemu-path'' \<in> set (cmd_of exe script cfg) \<longleftrightarrow> truthy (get cfg ''qemu_path''))"
    by (simp add: cmd_of_def passed_values_def option_flags_def)
  have h: "set (passed_values exe script cfg) \<inter> option_flags = {} \<longrightarrow>
      (JStr ''--no-build'' \<in> set (cmd_of exe script cfg) \<longleftrightarrow> truthy (get cfg ''no_build''))"
    by (simp add: cmd_of_def passed_values_def option_flags_def)
  have i: "set (passed_values exe script cfg) \<inter> option_flags = {} \<longrightarrow>
      (JStr ''--shutdown-after-run'' \<in> set (cmd_of exe script cfg)
        \<longleftrightarrow> truthy (get cfg ''shutdown_after_run''))"
    by (simp add: cmd_of_def passed_values_def option_flags_def)
  from a b c d e f g h i show ?thesis
    unfolding cmd by blast
qed

theorem build_cmd_flags_witness:
  "take 14 (cmd_of ''python'' ''s.py''
      (load_config (example_raw(''qemu_path'' \<mapsto> JStr ''/q'', ''shutdown_after_run'' \<mapsto> JBool True))))
     = [JStr ''python'', JStr ''s.py'',
        JStr ''--build-target'', JStr ''DEBUG'',
        JStr ''--fw-patch-repo'', JStr ''/w/fw'',
        JStr ''--patina-dxe-core-repo'', JStr ''/w/dxe'',
        JStr ''--platform'', JStr ''Q35'',
        JStr ''--pre-compiled-rom'', JStr ''/w/rom.fd'',
        JStr ''--toolchain'', JStr ''GCC5'']
   \<and> drop 14 (cmd_of ''python'' ''s.py''
      (load_config (example_raw(''qemu_path'' \<mapsto> JStr ''/q'', ''shutdown_after_run'' \<mapsto> JBool True))))
     = [JStr ''--qemu-path'', JStr ''/q'', JStr ''--headless'', JStr ''--shutdown-after-run'']
   \<and> JStr ''--qemu-path'' \<in> set (cmd_of ''python'' ''s.py''
      (load_config (example_raw(''qemu_path'' \<mapsto> JStr ''/q'', ''shutdown_after_run'' \<mapsto> JBool True))))
   \<and> JStr ''--no-build'' \<notin> set (cmd_of ''python'' ''s.py''
      (load_config (example_raw(''qemu_path'' \<mapsto> JStr ''/q'', ''shutdown_after_run'' \<mapsto> JBool True))))
   \<and> JStr ''--shutdown-after-run'' \<in> set (cmd_of ''python'' ''s.py''
      (load_config (example_raw(''qemu_path'' \<mapsto> JStr ''/q'', ''shutdown_after_run'' \<mapsto> JBool True))))"
proof -
  let ?cfg = "load_config (example_raw(''qemu_path'' \<mapsto> JStr ''/q'',
    ''shutdown_after_run'' \<mapsto> JBool True))"
  have run: "build_cmd ''python'' ''s.py'' ?cfg = Inr (cmd_of ''python'' ''s.py'' ?cfg)"
    unfolding load_config_example_raw
    by (rule build_cmd_present) (simp_all add: example_raw_def)
  have clean: "set (passed_values ''python'' ''s.py'' ?cfg) \<inter> option_flags = {}"
    unfolding load_config_example_raw
    by (simp add: passed_values_def option_flags_def get_def example_raw_def)
  have vals: "get ?cfg ''build_target'' = JStr ''DEBUG''" "get ?cfg ''fw_patch_repo'' = JStr ''/w/fw''"
    "get ?cfg ''patina_dxe_core_repo'' = JStr ''/w/dxe''" "get ?cfg ''platform'' = JStr ''Q35''"
    "get ?cfg ''pre_compiled_rom'' = JStr ''/w/rom.fd''" "get ?cfg ''toolchain'' = JStr ''GCC5''"
    "get ?cfg ''qemu_path'' = JStr ''/q''" "get ?cfg ''no_build'' = JBool False"
    "get ?cfg ''shutdown_after_run'' = JBool True"
    unfolding load_config_example_raw
    by (simp_all add: get_def example_raw_def)
  show ?thesis
    using build_cmd_flags [OF run] clean by (simp add: vals)
qed

text \<open>
  Values are copied as they are: a \<open>qemu_path\<close> that is the text of a flag is on the
  command line as the value of \<open>--qemu-path\<close>, whatever the field of that flag is.
\<close>

lemma build_cmd_value_verbatim:
  "drop 14 (cmd_of ''python'' ''s.py''
      (load_config (example_raw(''qemu_path'' \<mapsto> JStr ''--no-build'', ''shutdown_after_run'' \<mapsto> JBool False))))
     = [JStr ''--qemu-path'', JStr ''--no-build'', JStr ''--headless'']"
proof -
  let ?cfg = "load_config (example_raw(''qemu_path'' \<mapsto> JStr ''--no-build'',
    ''shutdown_after_run'' \<mapsto> JBool False))"
  have vals: "get ?cfg ''qemu_path'' = JStr ''--no-build''" "get ?cfg ''no_build'' = JBool False"
    "get ?cfg ''shutdown_after_run'' = JBool False"
    unfolding load_config_example_raw
    by (simp_all add: get_def example_raw_def)
  show ?thesis
    by (simp add: cmd_of_def vals)
qed

section \<open>Stream relay\<close>

lemma stream_reader_loop_acc:
  "stream_reader_loop ls lg fwd tr = tr @ stream_reader_loop ls lg fwd []"
proof (induction ls arbitrary: tr)
  case Nil
  show ?case by simp
next
  case (Cons l ls)
  show ?case
  proof (cases "l = []")
    case True
    then show ?thesis by simp
  next
    case False
    show ?thesis
    proof (cases fwd)
      case None
      with False Cons [of "tr @ [Write lg l, Flush lg]"] Cons [of "[Write lg l, Flush lg]"]
      show ?thesis by simp
    next
      case (Some f)
      with False Cons [of "tr @ [Write lg l, Flush lg, Write f l, Flush f]"]
        Cons [of "[Write lg l, Flush lg, Write f l, Flush f]"]
      show ?thesis by simp
    qed
  qed
qed

lemma stream_reader_loop_Cons:
  "l \<noteq> [] \<Longrightarrow> stream_reader_loop (l # ls) lg fwd [] =
     [Write lg l, Flush lg] @ (case fwd of None \<Rightarrow> [] | Some f \<Rightarrow> [Write f l, Flush f])
       @ stream_reader_loop ls lg fwd []"
  using stream_reader_loop_acc [of ls lg fwd "[Write lg l, Flush lg]"]
    stream_reader_loop_acc [of ls lg fwd "[Write lg l, Flush lg, Write (the fwd) l, Flush (the fwd)]"]
  by (cases fwd) simp_all

lemma writes_to_append: "writes_to h (a @ b) = writes_to h a @ writes_to h b"
  by (induction h a rule: writes_to.induct) simp_all

lemma flushed_each_append:
  "flushed_each a \<Longrightarrow> flushed_each b \<Longrightarrow> flushed_each (a @ b)"
  by (induction a rule: flushed_each.induct) simp_all

lemma writes_to_loop_log:
  assumes "\<forall>l \<in> set ls. l \<noteq> []" and "fwd \<noteq> Some lg"
  shows "writes_to lg (stream_reader_loop ls lg fwd []) = ls"
  using assms(1)
proof (induction ls)
  case Nil
  show ?case by simp
next
  case (Cons l ls)
  then have "l \<noteq> []" by simp
  from stream_reader_loop_Cons [OF this, of ls lg fwd] Cons assms(2) show ?case
    by (cases fwd) (simp_all add: writes_to_append)
qed

lemma writes_to_loop_mirror:
  assumes "\<forall>l \<in> set ls. l \<noteq> []" and "f \<noteq> lg"
  shows "writes_to f (stream_reader_loop ls lg (Some f) []) = ls"
  using assms(1)
proof (induction ls)
  case Nil
  show ?case by simp
next
  case (Cons l ls)
  then have "l \<noteq> []" by simp
  from stream_reader_loop_Cons [OF this, of ls lg "Some f"] Cons assms(2) show ?case
    by (simp add: writes_to_append)
qed

lemma writes_to_loop_other:
  assumes "h \<noteq> lg"
  shows "writes_to h (stream_reader_loop ls lg None []) = []"
proof (induction ls)
  case Nil
  show ?case by simp
next
  case (Cons l ls)
  show ?case
  proof (cases "l = []")
    case True
    then show ?thesis by simp
  next
    case False
    from stream_reader_loop_Cons [OF this, of ls lg None] Cons assms show ?thesis
      by (simp add: writes_to_append)
  qed
qed

lemma flushed_each_loop: "flushed_each (stream_reader_loop ls lg fwd [])"
proof (induction ls)
  case Nil
  show ?case by simp
next
  case (Cons l ls)
  show ?case
  proof (cases "l = []")
    case True
    then show ?thesis by simp
  next
    case False
    from stream_reader_loop_Cons [OF this, of ls lg fwd] Cons show ?thesis
      by (cases fwd) simp_all
  qed
qed

text \<open>
  C6. For every sequence of (non-empty) lines arriving on a child stream, the relay
  writes the lines to the log handle in arrival order; with a mirror it writes the same
  lines to the mirror as well, in the same order, and without one it writes nothing
  there; every write is followed at once by a flush of the handle written; and the end
  of the stream ends the relay normally: it closes the stream and returns, at once when
  the stream is empty.
\<close>

theorem stream_reader_relays:
  assumes "\<forall>l \<in> set lines. l \<noteq> []" and "mirror \<noteq> lg"
  shows "writes_to lg (stream_reader st lines lg None []) = lines
    \<and> writes_to mirror (stream_reader st lines lg None []) = []
    \<and> writes_to lg (stream_reader st lines lg (Some mirror) []) = lines
    \<and> writes_to mirror (stream_reader st lines lg (Some mirror) []) = lines
    \<and> flushed_each (stream_reader st lines lg fwd [])
    \<and> last (stream_reader st lines lg fwd []) = Close st
    \<and> stream_reader st [] lg fwd [] = [Close st]"
proof -
  have "Some mirror \<noteq> Some lg" "None \<noteq> Some lg"
    using assms(2) by simp_all
  then show ?thesis
    using writes_to_loop_log [OF assms(1), of None lg]
      writes_to_loop_log [OF assms(1), of "Some mirror" lg]
      writes_to_loop_mirror [OF assms]
      writes_to_loop_other [OF assms(2), of lines]
      flushed_each_append [OF flushed_each_loop [of lines lg fwd], of "[Close st]"]
    by (simp add: stream_reader_def writes_to_append)
qed

theorem stream_reader_relays_witness:
  "writes_to LogFile (stream_reader ChildStderr [''a'', ''bc''] LogFile (Some StderrBuffer) [])
     = [''a'', ''bc'']
   \<and> writes_to StderrBuffer (stream_reader ChildStderr [''a'', ''bc''] LogFile (Some StderrBuffer) [])
     = [''a'', ''bc'']
   \<and> writes_to StderrBuffer (stream_reader ChildStderr [''a'', ''bc''] LogFile None []) = []
   \<and> flushed_each (stream_reader ChildStderr [''a'', ''bc''] LogFile (Some StderrBuffer) [])"
proof -
  have a: "\<forall>l \<in> set [''a'', ''bc'']. l \<noteq> []" by simp
  have b: "StderrBuffer \<noteq> LogFile" by simp
  show ?thesis
    using stream_reader_relays [OF a b, of ChildStderr "Some StderrBuffer"] by simp
qed

section \<open>Process-tree terminator\<close>

lemma kill_process_tree_ok: "fst (kill_process_tree w32 proc w) = Inr ()"
  by (simp add: kill_process_tree_def killpg_def)

lemma kill_process_tree_handle: "fst (snd (kill_process_tree w32 proc w)) = proc"
  by (simp add: kill_process_tree_def killpg_def)

lemma kill_process_tree_live:
  "live (snd (snd (kill_process_tree w32 proc w))) = live w - {pid proc}"
  by (auto simp add: kill_process_tree_def killpg_def taskkill_def emit_def)

lemma kill_process_tree_events:
  "events (snd (snd (kill_process_tree w32 proc w))) =
     events w @ [if w32 then TaskKill (pid proc) else KillPg (pid proc)]"
  by (simp add: kill_process_tree_def killpg_def taskkill_def emit_def)

text \<open>
  C8. The terminator raises no error on any handle and in any state, and gives the
  handle back as it was, so a recorded exit status stays; when the process group has
  already gone, \<open>os.killpg\<close> does raise \<open>ProcessLookupError\<close>, which the terminator
  takes as success, leaving the live processes as they were; and a second invocation
  behaves in the same way.
\<close>

theorem kill_process_tree_tolerant:
  "fst (kill_process_tree w32 proc w) = Inr ()
   \<and> fst (snd (kill_process_tree w32 proc w)) = proc
   \<and> (pid proc \<notin> live w \<longrightarrow>
        fst (killpg (pid proc) w) = Inl ProcessLookupError
        \<and> live (snd (snd (kill_process_tree w32 proc w))) = live w)
   \<and> fst (kill_process_tree w32 (fst (snd (kill_process_tree w32 proc w)))
        (snd (snd (kill_process_tree w32 proc w)))) = Inr ()
   \<and> fst (snd (kill_process_tree w32 (fst (snd (kill_process_tree w32 proc w)))
        (snd (snd (kill_process_tree w32 proc w))))) = proc
   \<and> returncode (fst (snd (kill_process_tree w32 (snd (wait (Some rc) proc)) w))) = Some rc"
  by (simp add: kill_process_tree_ok kill_process_tree_handle kill_process_tree_live
      killpg_def wait_def)

theorem kill_process_tree_tolerant_witness:
  "fst (killpg 7 \<lparr>live = {}, events = []\<rparr>) = Inl ProcessLookupError
   \<and> fst (kill_process_tree False \<lparr>pid = 7, returncode = Some 0\<rparr> \<lparr>live = {}, events = []\<rparr>) = Inr ()
   \<and> returncode (fst (snd (kill_process_tree False \<lparr>pid = 7, returncode = Some 0\<rparr>
        \<lparr>live = {}, events = []\<rparr>))) = Some 0
   \<and> live (snd (snd (kill_process_tree False \<lparr>pid = 7, returncode = Some 0\<rparr>
        \<lparr>live = {}, events = []\<rparr>))) = {}"
  using kill_process_tree_tolerant
    [of False "\<lparr>pid = 7, returncode = Some 0\<rparr>" "\<lparr>live = {}, events = []\<rparr>" 0]
  by simp

section \<open>Supervisor\<close>

lemma setdefault_keeps: "raw k = Some v \<Longrightarrow> setdefault raw k' d k = Some v"
  by (auto simp add: setdefault_def split: option.splits)

lemma setdefault_present: "setdefault raw k d k \<noteq> None"
  by (auto simp add: setdefault_def split: option.splits)

lemma load_config_keeps:
  assumes "raw k = Some v" and "k \<noteq> ''no_build''" and "k \<noteq> ''shutdown_after_run''"
  shows "load_config raw k = Some v"
  using assms
  by (simp add: load_config_def DEFAULTS_def Let_def setdefault_keeps)

lemma load_config_build_target: "load_config raw ''build_target'' \<noteq> None"
proof -
  obtain a where "setdefault raw ''build_target'' (JStr ''DEBUG'') ''build_target'' = Some a"
    using setdefault_present [of raw "''build_target''"] by blast
  then show ?thesis
    by (simp add: load_config_def DEFAULTS_def Let_def setdefault_keeps)
qed

lemma build_cmd_launched:
  assumes "launched en raw repo lg child"
  shows "build_cmd exe script (load_config raw) = Inr (cmd_of exe script (load_config raw))"
proof -
  from assms obtain b c d e f where raw:
    "raw ''fw_patch_repo'' = Some b" "raw ''patina_dxe_core_repo'' = Some c"
    "raw ''platform'' = Some d" "raw ''pre_compiled_rom'' = Some e" "raw ''toolchain'' = Some f"
    by (auto simp add: launched_def)
  obtain a where a: "load_config raw ''build_target'' = Some a"
    using load_config_build_target [of raw] by blast
  have "load_config raw ''fw_patch_repo'' = Some b"
    "load_config raw ''patina_dxe_core_repo'' = Some c"
    "load_config raw ''platform'' = Some d" "load_config raw ''pre_compiled_rom'' = Some e"
    "load_config raw ''toolchain'' = Some f"
    using raw by (simp_all add: load_config_keeps)
  with a show ?thesis
    by (rule build_cmd_present)
qed

lemma bounded_wait_exit:
  assumes "first_wait en = Some rc"
  shows "bounded_wait en proc w = (Inr (False, rc, proc\<lparr>returncode := Some rc\<rparr>), w)"
  using assms by (simp add: bounded_wait_def wait_def)

lemma bounded_wait_timeout:
  assumes "first_wait en = None"
  shows "\<exists>rc proc'. bounded_wait en proc w =
     (Inr (True, rc, proc'),
      w\<lparr>live := live w - {pid proc},
        events := events w @ [if win32 en then TaskKill (pid proc) else KillPg (pid proc)]\<rparr>)"
  using assms
  by (cases "second_wait en")
    (auto simp add: bounded_wait_def wait_def kill_process_tree_def killpg_def taskkill_def
      emit_def)


lemma emit_events: "events (emit e w) = events w @ [e]"
  by (simp add: emit_def)

lemma emit_live: "live (emit e w) = live w"
  by (simp add: emit_def)

lemma main_launched:
  assumes "launched en raw repo lg child"
  shows "main en raw w =
    (case bounded_wait en \<lparr>pid = child, returncode = None\<rparr>
        (w\<lparr>live := insert child (live w),
           events := events w @ launch_events en raw repo lg\<rparr>) of
       (Inl e, w') \<Rightarrow> (Inl e, w')
     | (Inr (t, rc, p), w') \<Rightarrow>
         (case finish en (load_config raw) (Path repo) (Path lg) t rc
            (write_timing (Path lg) (elapsed en) w') of
            (code, w'') \<Rightarrow> (Inr \<lparr>exit_code = code, timed_out = t\<rparr>, w'')))"
proof -
  from assms have repo: "getitem (load_config raw) ''patina_qemu_repo'' = Inr (JStr repo)"
    and lg: "getitem (load_config raw) ''log_file'' = Inr (JStr lg)"
    and child: "popen_result en = Inr child"
    by (simp_all add: launched_def getitem_def load_config_keeps)
  show ?thesis
    by (simp add: main_def Let_def repo lg child as_path_def build_cmd_launched [OF assms]
        launch_events_def emit_def split: prod.split sum.split)
qed

lemma finish_timed_out:
  "finish en cfg repo lg True rc w =
     (1, w\<lparr>events := events w @ [StderrWrite timeout_msg, StderrFlush, LogAppend lg timeout_msg]\<rparr>)"
  by (simp add: finish_def report_def emit_def Let_def)

lemma finish_exited:
  "finish en (load_config raw) (Path repo) lg False rc w =
     (if check_fails en raw repo
      then (1, w\<lparr>events := events w @
              [StderrWrite (failure_msg (str_of_path en (shutdown_drive_of repo))), StderrFlush,
               LogAppend lg (failure_msg (str_of_path en (shutdown_drive_of repo)))]\<rparr>)
      else (rc, w))"
  by (simp add: finish_def report_def emit_def Let_def check_fails_def shutdown_drive_of_def
      uefi_logs_of_def)

lemma main_exited:
  assumes "launched en raw repo lg child" and "first_wait en = Some rc"
  shows "main en raw w =
    (Inr \<lparr>exit_code = (if check_fails en raw repo then 1 else rc), timed_out = False\<rparr>,
     w\<lparr>live := insert child (live w),
       events := events w @ launch_events en raw repo lg
         @ [WriteTiming (Path lg) (timing (elapsed en))]
         @ (if check_fails en raw repo
            then [StderrWrite (failure_msg (str_of_path en (shutdown_drive_of repo))), StderrFlush,
                  LogAppend (Path lg) (failure_msg (str_of_path en (shutdown_drive_of repo)))]
            else [])\<rparr>)"
  by (simp add: main_launched [OF assms(1)] bounded_wait_exit [OF assms(2)] finish_exited
      write_timing_def emit_def)

lemma main_timed_out:
  assumes "launched en raw repo lg child" and "first_wait en = None"
  shows "main en raw w =
    (Inr \<lparr>exit_code = 1, timed_out = True\<rparr>,
     w\<lparr>live := live w - {child},
       events := events w @ launch_events en raw repo lg
         @ [if win32 en then TaskKill child else KillPg child,
            WriteTiming (Path lg) (timing (elapsed en)),
            StderrWrite timeout_msg, StderrFlush, LogAppend (Path lg) timeout_msg]\<rparr>)"
proof -
  obtain rc p where "bounded_wait en \<lparr>pid = child, returncode = None\<rparr>
        (w\<lparr>live := insert child (live w),
           events := events w @ launch_events en raw repo lg\<rparr>) =
     (Inr (True, rc, p),
      w\<lparr>live := live w - {child},
        events := events w @ launch_events en raw repo lg
          @ [if win32 en then TaskKill child else KillPg child]\<rparr>)"
    using bounded_wait_timeout [OF assms(2), of "\<lparr>pid = child, returncode = None\<rparr>"
        "w\<lparr>live := insert child (live w),
           events := events w @ launch_events en raw repo lg\<rparr>"]
    by auto
  then show ?thesis
    by (simp add: main_launched [OF assms(1)] finish_timed_out write_timing_def emit_def)
qed

lemma kills_launch: "filter is_kill (launch_events en raw repo lg) = []"
  by (simp add: launch_events_def)


lemma launched_example:
  "launched (example_env w1 w2 ps)
     (example_raw(''qemu_path'' \<mapsto> q, ''shutdown_after_run'' \<mapsto> JBool s))
     ''/w/qemu'' ''/w/build.log'' 7"
  by (simp add: launched_def example_env_def example_raw_def)

lemma shutdown_after_run_example:
  "truthy (get (load_config (example_raw(''qemu_path'' \<mapsto> q, ''shutdown_after_run'' \<mapsto> JBool s)))
     ''shutdown_after_run'') = s"
  unfolding load_config_example_raw by (simp add: get_def)

lemma check_fails_example:
  "check_fails (example_env w1 w2 ps)
     (example_raw(''qemu_path'' \<mapsto> q, ''shutdown_after_run'' \<mapsto> JBool s)) repo =
   (s \<and> shutdown_drive_of repo \<in> ps \<and> uefi_logs_of repo \<notin> ps)"
  by (simp add: check_fails_def shutdown_after_run_example example_env_def)

text \<open>
  C1. In every run in which the child is launched and does not exit within the timeout,
  \<open>main\<close> returns 1, whatever the wait after the kill observes, \<open>timed_out\<close> is true, and
  the terminator has signalled exactly once.
\<close>

theorem main_timeout_forced_failure:
  assumes "launched en raw repo lg child" and "first_wait en = None"
  shows "fst (main en raw w) = Inr \<lparr>exit_code = 1, timed_out = True\<rparr>
    \<and> kills (snd (main en raw w)) = Suc (kills w)"
  by (simp add: main_timed_out [OF assms] kills_def kills_launch)

theorem main_timeout_forced_failure_witness:
  "second_wait (example_env None (Some (- 9)) {}) = Some (- 9)
   \<and> fst (main (example_env None (Some (- 9)) {})
        (example_raw(''qemu_path'' \<mapsto> JStr [], ''shutdown_after_run'' \<mapsto> JBool False)) world0)
      = Inr \<lparr>exit_code = 1, timed_out = True\<rparr>
   \<and> kills (snd (main (example_env None (Some (- 9)) {})
        (example_raw(''qemu_path'' \<mapsto> JStr [], ''shutdown_after_run'' \<mapsto> JBool False)) world0))
      = 1"
proof -
  have a: "first_wait (example_env None (Some (- 9)) {}) = None"
    by (simp add: example_env_def)
  have b: "kills world0 = 0"
    by (simp add: kills_def world0_def)
  have c: "second_wait (example_env None (Some (- 9)) {}) = Some (- 9)"
    by (simp add: example_env_def)
  show ?thesis
    using main_timeout_forced_failure [OF launched_example a, of "JStr []" False world0] b c
    by simp
qed

text \<open>
  C2, as the code has it. In every run in which the child is launched and exits before
  the timeout, \<open>timed_out\<close> is false, the terminator is not invoked, and \<open>main\<close> returns
  the child's exit code, unless the post-run check fails (shutdown-after-run is set, the
  shutdown drive directory exists and has no \<open>UefiLogs\<close>): then it returns 1.
\<close>

theorem main_native_exit_code:
  assumes "launched en raw repo lg child" and "first_wait en = Some rc"
  shows "fst (main en raw w) =
      Inr \<lparr>exit_code = (if check_fails en raw repo then 1 else rc), timed_out = False\<rparr>
    \<and> kills (snd (main en raw w)) = kills w"
  by (simp add: main_exited [OF assms] kills_def kills_launch)

theorem main_native_exit_code_witness:
  "fst (main (example_env (Some 3) None {})
        (example_raw(''qemu_path'' \<mapsto> JStr [], ''shutdown_after_run'' \<mapsto> JBool False)) world0)
      = Inr \<lparr>exit_code = 3, timed_out = False\<rparr>
   \<and> kills (snd (main (example_env (Some 3) None {})
        (example_raw(''qemu_path'' \<mapsto> JStr [], ''shutdown_after_run'' \<mapsto> JBool False)) world0))
      = 0"
proof -
  have a: "first_wait (example_env (Some 3) None {}) = Some 3"
    by (simp add: example_env_def)
  have b: "kills world0 = 0"
    by (simp add: kills_def world0_def)
  show ?thesis
    using main_native_exit_code [OF launched_example a, of "JStr []" False world0] b
    by (simp add: check_fails_example)
qed

theorem main_native_exit_code_counterexample:
  "first_wait (example_env (Some 0) None {shutdown_drive_of ''/w/qemu''}) = Some 0
   \<and> fst (main (example_env (Some 0) None {shutdown_drive_of ''/w/qemu''})
        (example_raw(''qemu_path'' \<mapsto> JStr [], ''shutdown_after_run'' \<mapsto> JBool True)) world0)
      = Inr \<lparr>exit_code = 1, timed_out = False\<rparr>"
proof -
  have a: "first_wait (example_env (Some 0) None {shutdown_drive_of ''/w/qemu''}) = Some 0"
    by (simp add: example_env_def)
  have b: "check_fails (example_env (Some 0) None {shutdown_drive_of ''/w/qemu''})
      (example_raw(''qemu_path'' \<mapsto> JStr [], ''shutdown_after_run'' \<mapsto> JBool True))
      ''/w/qemu''"
    by (simp add: check_fails_example shutdown_drive_of_def uefi_logs_of_def)
  show ?thesis
    by (simp add: main_exited [OF launched_example a] b a)
qed

text \<open>
  C3, as the code has it. When shutdown-after-run is set and the child is launched:
  after an exit within the timeout, whatever the exit code, \<open>main\<close> looks for the
  shutdown drive directory and, only when that exists, for \<open>UefiLogs\<close> in it. When the
  drive exists and \<open>UefiLogs\<close> does not, \<open>main\<close> returns 1 and the failure message goes
  to the error channel, flushed, and is appended to the log. When the drive itself is
  absent, or \<open>UefiLogs\<close> is there, nothing is reported and \<open>main\<close> returns the child's
  exit code. After a timeout the check is not made: the only message is the timeout's.
\<close>

theorem post_run_check:
  assumes "launched en raw repo lg child"
    and "truthy (get (load_config raw) ''shutdown_after_run'')"
  shows "(first_wait en = Some rc \<and> shutdown_drive_of repo \<in> existing en
          \<and> uefi_logs_of repo \<notin> existing en \<longrightarrow>
        fst (main en raw w) = Inr \<lparr>exit_code = 1, timed_out = False\<rparr>
        \<and> events (snd (main en raw w)) = events w @ launch_events en raw repo lg
            @ [WriteTiming (Path lg) (timing (elapsed en)),
               StderrWrite (failure_msg (str_of_path en (shutdown_drive_of repo))), StderrFlush,
               LogAppend (Path lg) (failure_msg (str_of_path en (shutdown_drive_of repo)))])
    \<and> (first_wait en = Some rc \<and> (shutdown_drive_of repo \<notin> existing en
          \<or> uefi_logs_of repo \<in> existing en) \<longrightarrow>
        fst (main en raw w) = Inr \<lparr>exit_code = rc, timed_out = False\<rparr>
        \<and> events (snd (main en raw w)) = events w @ launch_events en raw repo lg
            @ [WriteTiming (Path lg) (timing (elapsed en))])
    \<and> (first_wait en = None \<longrightarrow>
        fst (main en raw w) = Inr \<lparr>exit_code = 1, timed_out = True\<rparr>
        \<and> events (snd (main en raw w)) = events w @ launch_events en raw repo lg
            @ [if win32 en then TaskKill child else KillPg child,
               WriteTiming (Path lg) (timing (elapsed en)),
               StderrWrite timeout_msg, StderrFlush, LogAppend (Path lg) timeout_msg])"
proof -
  have fails: "check_fails en raw repo =
      (shutdown_drive_of repo \<in> existing en \<and> uefi_logs_of repo \<notin> existing en)"
    using assms(2) by (simp add: check_fails_def)
  have a: "first_wait en = Some rc \<and> shutdown_drive_of repo \<in> existing en
          \<and> uefi_logs_of repo \<notin> existing en \<longrightarrow>
        fst (main en raw w) = Inr \<lparr>exit_code = 1, timed_out = False\<rparr>
        \<and> events (snd (main en raw w)) = events w @ launch_events en raw repo lg
            @ [WriteTiming (Path lg) (timing (elapsed en)),
               StderrWrite (failure_msg (str_of_path en (shutdown_drive_of repo))), StderrFlush,
               LogAppend (Path lg) (failure_msg (str_of_path en (shutdown_drive_of repo)))]"
    using main_exited [OF assms(1), of rc w] by (simp add: fails)
  have b: "first_wait en = Some rc \<and> (shutdown_drive_of repo \<notin> existing en
          \<or> uefi_logs_of repo \<in> existing en) \<longrightarrow>
        fst (main en raw w) = Inr \<lparr>exit_code = rc, timed_out = False\<rparr>
        \<and> events (snd (main en raw w)) = events w @ launch_events en raw repo lg
            @ [WriteTiming (Path lg) (timing (elapsed en))]"
    using main_exited [OF assms(1), of rc w] by (auto simp add: fails)
  have c: "first_wait en = None \<longrightarrow>
        fst (main en raw w) = Inr \<lparr>exit_code = 1, timed_out = True\<rparr>
        \<and> events (snd (main en raw w)) = events w @ launch_events en raw repo lg
            @ [if win32 en then TaskKill child else KillPg child,
               WriteTiming (Path lg) (timing (elapsed en)),
               StderrWrite timeout_msg, StderrFlush, LogAppend (Path lg) timeout_msg]"
    using main_timed_out [OF assms(1), of w] by simp
  from a b c show ?thesis
    by blast
qed


theorem post_run_check_witness:
  "fst (main (example_env (Some 0) None {shutdown_drive_of ''/w/qemu''})
        (example_raw(''qemu_path'' \<mapsto> JStr [], ''shutdown_after_run'' \<mapsto> JBool True)) world0)
      = Inr \<lparr>exit_code = 1, timed_out = False\<rparr>
   \<and> fst (main (example_env (Some 0) None {shutdown_drive_of ''/w/qemu'', uefi_logs_of ''/w/qemu''})
        (example_raw(''qemu_path'' \<mapsto> JStr [], ''shutdown_after_run'' \<mapsto> JBool True)) world0)
      = Inr \<lparr>exit_code = 0, timed_out = False\<rparr>
   \<and> fst (main (example_env None None {shutdown_drive_of ''/w/qemu''})
        (example_raw(''qemu_path'' \<mapsto> JStr [], ''shutdown_after_run'' \<mapsto> JBool True)) world0)
      = Inr \<lparr>exit_code = 1, timed_out = True\<rparr>"
proof -
  let ?raw = "example_raw(''qemu_path'' \<mapsto> JStr [], ''shutdown_after_run'' \<mapsto> JBool True)"
  have sar: "truthy (get (load_config ?raw) ''shutdown_after_run'')"
    by (simp add: shutdown_after_run_example)
  have paths: "uefi_logs_of ''/w/qemu'' \<noteq> shutdown_drive_of ''/w/qemu''"
    by (simp add: uefi_logs_of_def shutdown_drive_of_def)
  have a: "first_wait (example_env (Some 0) None {shutdown_drive_of ''/w/qemu''}) = Some 0
      \<and> shutdown_drive_of ''/w/qemu'' \<in> existing (example_env (Some 0) None {shutdown_drive_of ''/w/qemu''})
      \<and> uefi_logs_of ''/w/qemu'' \<notin> existing (example_env (Some 0) None {shutdown_drive_of ''/w/qemu''})"
    using paths by (simp add: example_env_def)
  have b: "first_wait (example_env (Some 0) None
        {shutdown_drive_of ''/w/qemu'', uefi_logs_of ''/w/qemu''}) = Some 0
      \<and> (shutdown_drive_of ''/w/qemu'' \<notin> existing (example_env (Some 0) None
            {shutdown_drive_of ''/w/qemu'', uefi_logs_of ''/w/qemu''})
          \<or> uefi_logs_of ''/w/qemu'' \<in> existing (example_env (Some 0) None
            {shutdown_drive_of ''/w/qemu'', uefi_logs_of ''/w/qemu''}))"
    by (simp add: example_env_def)
  have c: "first_wait (example_env None None {shutdown_drive_of ''/w/qemu''}) = None"
    by (simp add: example_env_def)
  from post_run_check [OF launched_example sar, of "Some 0" None "{shutdown_drive_of ''/w/qemu''}" 0 world0] a
  have 1: "fst (main (example_env (Some 0) None {shutdown_drive_of ''/w/qemu''}) ?raw world0)
      = Inr \<lparr>exit_code = 1, timed_out = False\<rparr>"
    by blast
  from post_run_check [OF launched_example sar, of "Some 0" None
      "{shutdown_drive_of ''/w/qemu'', uefi_logs_of ''/w/qemu''}" 0 world0] b
  have 2: "fst (main (example_env (Some 0) None
        {shutdown_drive_of ''/w/qemu'', uefi_logs_of ''/w/qemu''}) ?raw world0)
      = Inr \<lparr>exit_code = 0, timed_out = False\<rparr>"
    by blast
  from post_run_check [OF launched_example sar, of None None "{shutdown_drive_of ''/w/qemu''}" 0 world0] c
  have 3: "fst (main (example_env None None {shutdown_drive_of ''/w/qemu''}) ?raw world0)
      = Inr \<lparr>exit_code = 1, timed_out = True\<rparr>"
    by blast
  from 1 2 3 show ?thesis
    by blast
qed

theorem post_run_check_counterexample:
  "truthy (get (load_config
      (example_raw(''qemu_path'' \<mapsto> JStr [], ''shutdown_after_run'' \<mapsto> JBool True)))
      ''shutdown_after_run'')
   \<and> first_wait (example_env (Some 0) None {}) = Some 0
   \<and> uefi_logs_of ''/w/qemu'' \<notin> existing (example_env (Some 0) None {})
   \<and> fst (main (example_env (Some 0) None {})
        (example_raw(''qemu_path'' \<mapsto> JStr [], ''shutdown_after_run'' \<mapsto> JBool True)) world0)
      = Inr \<lparr>exit_code = 0, timed_out = False\<rparr>
   \<and> filter is_message (events (snd (main (example_env (Some 0) None {})
        (example_raw(''qemu_path'' \<mapsto> JStr [], ''shutdown_after_run'' \<mapsto> JBool True)) world0)))
      = []"
proof -
  have a: "first_wait (example_env (Some 0) None {}) = Some 0"
    by (simp add: example_env_def)
  have b: "\<not> check_fails (example_env (Some 0) None {})
      (example_raw(''qemu_path'' \<mapsto> JStr [], ''shutdown_after_run'' \<mapsto> JBool True))
      ''/w/qemu''"
    by (simp add: check_fails_example)
  have c: "existing (example_env (Some 0) None {}) = {}"
    by (simp add: example_env_def)
  show ?thesis
    by (simp add: main_exited [OF launched_example a] b a c shutdown_after_run_example
        launch_events_def world0_def)
qed

section \<open>Timing record\<close>

lemma round_half_even_near: "\<bar>of_int (round_half_even x) - x\<bar> \<le> 1 / 2"
proof -
  have "of_int \<lfloor>x\<rfloor> \<le> x" "x < of_int \<lfloor>x\<rfloor> + 1"
    by linarith+
  then show ?thesis
    by (auto simp add: round_half_even_def Let_def)
qed

lemma round_half_even_nonneg: "0 \<le> x \<Longrightarrow> 0 \<le> round_half_even x"
proof -
  assume "0 \<le> x"
  then have "0 \<le> \<lfloor>x\<rfloor>" by simp
  then show ?thesis
    by (auto simp add: round_half_even_def Let_def)
qed

lemma round_half_even_le:
  assumes "x < of_int n"
  shows "round_half_even x \<le> n"
proof -
  from assms have "\<lfloor>x\<rfloor> < n"
    by (simp add: floor_less_iff)
  then show ?thesis
    by (auto simp add: round_half_even_def Let_def)
qed

lemma py_divmod_60:
  "py_divmod e 60 = (of_int \<lfloor>e / 60\<rfloor>, e - 60 * of_int \<lfloor>e / 60\<rfloor>)"
  by (simp add: py_divmod_def)

lemma secs_range:
  "0 \<le> e - 60 * of_int \<lfloor>e / 60\<rfloor>" "e - 60 * of_int \<lfloor>e / 60\<rfloor> < (60::rat)"
proof -
  have "of_int \<lfloor>e / 60\<rfloor> \<le> e / 60" "e / 60 < of_int \<lfloor>e / 60\<rfloor> + 1"
    by linarith+
  then show "0 \<le> e - 60 * of_int \<lfloor>e / 60\<rfloor>" "e - 60 * of_int \<lfloor>e / 60\<rfloor> < (60::rat)"
    by (simp_all add: field_simps)
qed

lemma format_f_0:
  assumes "0 \<le> x"
  shows "format_f 0 x = str_nat (nat (round_half_even x))"
  using assms by (simp add: format_f_def)

lemma format_f_1:
  assumes "0 \<le> x"
  shows "format_f 1 x = str_nat (nat (round_half_even (x * 10)) div 10) @ ''.''
    @ [digit_char (nat (round_half_even (x * 10)) mod 10)]"
proof -
  have "str_nat (nat (round_half_even (x * 10)) mod 10)
      = [digit_char (nat (round_half_even (x * 10)) mod 10)]"
    by (simp add: str_nat.simps [of "nat (round_half_even (x * 10)) mod 10"])
  with assms show ?thesis
    by (simp add: format_f_def zfill_def Let_def)
qed

lemma display_short:
  assumes "0 \<le> e" and "e < 60"
  shows "elapsed_display (timing e) =
    str_nat (nat (round_half_even (10 * e)) div 10) @ ''.''
      @ [digit_char (nat (round_half_even (10 * e)) mod 10)] @ ''s''"
proof -
  from assms have "\<lfloor>e / 60\<rfloor> = 0"
    by (simp add: floor_eq_iff)
  with assms format_f_1 [OF assms(1)] show ?thesis
    by (simp add: timing_def py_divmod_60 mult.commute)
qed

lemma display_long:
  assumes "60 \<le> e"
  shows "elapsed_display (timing e) =
    str_nat (nat \<lfloor>e / 60\<rfloor>) @ ''m ''
      @ str_nat (nat (round_half_even (e - 60 * of_int \<lfloor>e / 60\<rfloor>))) @ ''s''"
proof -
  from assms have m: "1 \<le> \<lfloor>e / 60\<rfloor>"
    by (simp add: le_floor_iff)
  then have "(1::rat) \<le> of_int \<lfloor>e / 60\<rfloor>"
    by linarith
  with m format_f_0 [OF secs_range(1), of e] show ?thesis
    by (simp add: timing_def py_divmod_60 py_int_def str_int_def)
qed

text \<open>
  C4. An elapsed time below one minute is displayed as its seconds rounded to one
  decimal place, the integer part, a point and one digit, followed by \<open>s\<close>; an elapsed
  time of one minute or more as the whole minutes followed by \<open>m\<close>, a space, and the
  remaining seconds rounded to an integer followed by \<open>s\<close>. The float 45.3 and the
  decimal 45.3 both give \<open>45.3s\<close>, and 125 seconds give \<open>2m 5s\<close>. Elapsed times
  are differences of a monotonic clock, so they are not negative.
\<close>

theorem elapsed_display_rule:
  "(0 \<le> e \<and> e < 60 \<longrightarrow>
      (\<exists>n. int n = round_half_even (10 * e) \<and> n \<le> 600 \<and>
        elapsed_display (timing e) =
          str_nat (n div 10) @ ''.'' @ [digit_char (n mod 10)] @ ''s''))
   \<and> (60 \<le> e \<longrightarrow>
      (\<exists>m s. int m = \<lfloor>e / 60\<rfloor> \<and> int s = round_half_even (e - 60 * of_int \<lfloor>e / 60\<rfloor>)
        \<and> s \<le> 60 \<and>
        elapsed_display (timing e) = str_nat m @ ''m '' @ str_nat s @ ''s''))
   \<and> elapsed_display (timing (453 / 10)) = ''45.3s''
   \<and> elapsed_display (timing (3187704111248179 / 70368744177664)) = ''45.3s''
   \<and> elapsed_display (timing 125) = ''2m 5s''"
proof -
  have short: "0 \<le> e \<and> e < 60 \<longrightarrow>
      (\<exists>n. int n = round_half_even (10 * e) \<and> n \<le> 600 \<and>
        elapsed_display (timing e) =
          str_nat (n div 10) @ ''.'' @ [digit_char (n mod 10)] @ ''s'')"
  proof
    assume e: "0 \<le> e \<and> e < 60"
    then have "0 \<le> round_half_even (10 * e)"
      by (simp add: round_half_even_nonneg)
    moreover from e have "round_half_even (10 * e) \<le> 600"
      by (intro round_half_even_le) simp
    ultimately have "int (nat (round_half_even (10 * e))) = round_half_even (10 * e)"
      "nat (round_half_even (10 * e)) \<le> 600"
      by simp_all
    with display_short [of e] e show "\<exists>n. int n = round_half_even (10 * e) \<and> n \<le> 600 \<and>
        elapsed_display (timing e) =
          str_nat (n div 10) @ ''.'' @ [digit_char (n mod 10)] @ ''s''"
      by blast
  qed
  have long: "60 \<le> e \<longrightarrow>
      (\<exists>m s. int m = \<lfloor>e / 60\<rfloor> \<and> int s = round_half_even (e - 60 * of_int \<lfloor>e / 60\<rfloor>)
        \<and> s \<le> 60 \<and>
        elapsed_display (timing e) = str_nat m @ ''m '' @ str_nat s @ ''s'')"
  proof
    assume e: "60 \<le> e"
    then have "1 \<le> \<lfloor>e / 60\<rfloor>"
      by (simp add: le_floor_iff)
    then have m: "int (nat \<lfloor>e / 60\<rfloor>) = \<lfloor>e / 60\<rfloor>"
      by simp
    have "0 \<le> round_half_even (e - 60 * of_int \<lfloor>e / 60\<rfloor>)"
      using secs_range(1) [of e] by (rule round_half_even_nonneg)
    moreover have "round_half_even (e - 60 * of_int \<lfloor>e / 60\<rfloor>) \<le> 60"
      using secs_range(2) [of e] by (intro round_half_even_le) simp
    ultimately have s: "int (nat (round_half_even (e - 60 * of_int \<lfloor>e / 60\<rfloor>)))
        = round_half_even (e - 60 * of_int \<lfloor>e / 60\<rfloor>)"
      "nat (round_half_even (e - 60 * of_int \<lfloor>e / 60\<rfloor>)) \<le> 60"
      by simp_all
    from display_long [OF e] m s
    show "\<exists>m s. int m = \<lfloor>e / 60\<rfloor> \<and> int s = round_half_even (e - 60 * of_int \<lfloor>e / 60\<rfloor>)
        \<and> s \<le> 60 \<and>
        elapsed_display (timing e) = str_nat m @ ''m '' @ str_nat s @ ''s''"
      by blast
  qed
  have a: "elapsed_display (timing (453 / 10)) = ''45.3s''"
    by code_simp
  have b: "elapsed_display (timing (3187704111248179 / 70368744177664)) = ''45.3s''"
    by code_simp
  have c: "elapsed_display (timing 125) = ''2m 5s''"
    by code_simp
  from short long a b c show ?thesis
    by blast
qed

theorem elapsed_display_rule_witness:
  "(\<exists>n. int n = round_half_even (10 * (1 / 4)) \<and> n \<le> 600 \<and>
      elapsed_display (timing (1 / 4)) =
        str_nat (n div 10) @ ''.'' @ [digit_char (n mod 10)] @ ''s'')
   \<and> (\<exists>m s. int m = \<lfloor>(90::rat) / 60\<rfloor> \<and> int s = round_half_even (90 - 60 * of_int \<lfloor>(90::rat) / 60\<rfloor>)
      \<and> s \<le> 60 \<and>
      elapsed_display (timing 90) = str_nat m @ ''m '' @ str_nat s @ ''s'')"
proof -
  have a: "(0::rat) \<le> 1 / 4 \<and> (1::rat) / 4 < 60"
    by simp
  have b: "(60::rat) \<le> 90"
    by simp
  from elapsed_display_rule [of "1 / 4"] a elapsed_display_rule [of 90] b show ?thesis
    by blast
qed

text \<open>
  C5. The \<open>elapsed_seconds\<close> field of the timing record, which \<open>_write_timing\<close> writes
  beside the log, is a number of two decimal places (a whole number of hundredths) that
  differs from the measured elapsed time by half a hundredth at most; a tie goes to the
  even hundredth, as for 2.675, while the float nearest to 2.675, which is below it,
  gives 2.67.
\<close>

theorem elapsed_seconds_two_decimals:
  "(\<exists>k::int. elapsed_seconds (timing e) = of_int k / 100)
   \<and> \<bar>elapsed_seconds (timing e) - e\<bar> \<le> 1 / 200
   \<and> events (write_timing log_path e w) = events w @ [WriteTiming log_path (timing e)]
   \<and> elapsed_seconds (timing (2675 / 1000)) = 268 / 100
   \<and> elapsed_seconds (timing (3011782250804019 / 1125899906842624)) = 267 / 100"
proof -
  have field: "elapsed_seconds (timing e) = of_int (round_half_even (e * 100)) / 100"
    by (simp add: timing_def py_divmod_60 py_round_def)
  then have a: "\<exists>k::int. elapsed_seconds (timing e) = of_int k / 100"
    by blast
  have "\<bar>of_int (round_half_even (e * 100)) - e * 100\<bar> \<le> 1 / 2"
    by (rule round_half_even_near)
  then have b: "\<bar>elapsed_seconds (timing e) - e\<bar> \<le> 1 / 200"
    unfolding field by (simp add: field_simps abs_le_iff)
  have c: "events (write_timing log_path e w) = events w @ [WriteTiming log_path (timing e)]"
    by (simp add: write_timing_def emit_def)
  have d: "elapsed_seconds (timing (2675 / 1000)) = 268 / 100"
    by code_simp
  have e: "elapsed_seconds (timing (3011782250804019 / 1125899906842624)) = 267 / 100"
    by code_simp
  from a b c d e show ?thesis
    by blast
qed

section \<open>Diagnostic extraction\<close>

lemma block_lines_snoc:
  "block_lines b \<Longrightarrow> is_continuation c \<Longrightarrow> \<not> SECTION_START_RE_match c \<Longrightarrow> block_lines (b @ [c])"
  by (cases b) (simp_all add: block_lines_def)

lemma block_lines_start: "SECTION_START_RE_match l \<Longrightarrow> block_lines [l]"
  by (simp add: block_lines_def)

lemma section_ok_block: "block_lines b \<Longrightarrow> set b \<subseteq> A \<Longrightarrow> section_ok A (join NL b)"
  unfolding section_ok_def by blast

lemma loop_inv_step:
  assumes "loop_inv A sections current in_section" and "set lines \<subseteq> A"
    and "extract_loop lines sections current in_section = (sections', current', in_section')"
  shows "loop_inv A sections' current' in_section'"
  using assms
proof (induction lines arbitrary: sections current in_section)
  case Nil
  then show ?case by simp
next
  case (Cons line lines)
  from Cons.prems(2) have line: "line \<in> A" and rest: "set lines \<subseteq> A"
    by simp_all
  from Cons.prems(1) have secs: "list_all (section_ok A) sections"
    and cur: "current = [] \<or> (block_lines current \<and> set current \<subseteq> A)"
    and ins: "in_section = (current \<noteq> [])"
    by (simp_all add: loop_inv_def)
  show ?case
  proof (cases "SECTION_START_RE_match line")
    case True
    have "loop_inv A (if current \<noteq> [] then sections @ [join NL current] else sections)
        [line] True"
      using secs cur line True
      by (auto simp add: loop_inv_def block_lines_start section_ok_block)
    from Cons.IH [OF this rest] Cons.prems(3) True show ?thesis
      by simp
  next
    case start: False
    show ?thesis
    proof (cases in_section)
      case True
      with ins cur have block: "block_lines current" "set current \<subseteq> A" "current \<noteq> []"
        by auto
      show ?thesis
      proof (cases "is_continuation line")
        case cont: True
        have "loop_inv A sections (current @ [line]) in_section"
          using secs block line True cont start
          by (simp add: loop_inv_def block_lines_snoc)
        from Cons.IH [OF this rest] Cons.prems(3) True cont start show ?thesis
          by simp
      next
        case cont: False
        have "loop_inv A (if BUILD_ERROR_RE_search line
              then (sections @ [join NL current]) @ [line]
              else sections @ [join NL current]) [] False"
          using secs block line start
          by (auto simp add: loop_inv_def section_ok_block) (simp add: section_ok_def)
        from Cons.IH [OF this rest] Cons.prems(3) True cont start show ?thesis
          by simp
      qed
    next
      case False
      show ?thesis
      proof (cases "BUILD_ERROR_RE_search line")
        case be: True
        have "loop_inv A (sections @ [line]) current in_section"
          using Cons.prems(1) line start be
          by (simp add: loop_inv_def section_ok_def)
        from Cons.IH [OF this rest] Cons.prems(3) False be start show ?thesis
          by simp
      next
        case be: False
        from Cons.IH [OF Cons.prems(1) rest] Cons.prems(3) False be start show ?thesis
          by simp
      qed
    qed
  qed
qed

lemma extract_sections_ok:
  "list_all (section_ok (set lines)) (extract_error_sections lines)"
proof -
  obtain S C I where run: "extract_loop lines [] [] False = (S, C, I)"
    by (cases "extract_loop lines [] [] False") auto
  have "loop_inv (set lines) [] [] False"
    by (simp add: loop_inv_def)
  from loop_inv_step [OF this _ run] have "loop_inv (set lines) S C I"
    by simp
  then show ?thesis
    by (auto simp add: extract_error_sections_def run loop_inv_def section_ok_block)
qed

lemma extract_loop_append:
  "extract_loop (xs @ ys) S C I =
     (case extract_loop xs S C I of (S', C', I') \<Rightarrow> extract_loop ys S' C' I')"
  by (induction xs arbitrary: S C I) simp_all

lemma extract_loop_continuations:
  assumes "list_all (\<lambda>c. is_continuation c \<and> \<not> SECTION_START_RE_match c) ls"
  shows "extract_loop ls S C True = (S, C @ ls, True)"
  using assms by (induction ls arbitrary: C) simp_all

lemma extract_trailing:
  assumes "SECTION_START_RE_match l"
    and "list_all (\<lambda>c. is_continuation c \<and> \<not> SECTION_START_RE_match c) ls"
  shows "\<exists>S. extract_error_sections (pre @ l # ls) = S @ [join NL (l # ls)]"
proof -
  obtain S C I where pre: "extract_loop pre [] [] False = (S, C, I)"
    by (cases "extract_loop pre [] [] False") auto
  have "extract_loop (pre @ l # ls) [] [] False =
      (if C \<noteq> [] then S @ [join NL C] else S, l # ls, True)"
    using assms(1) extract_loop_continuations [OF assms(2)]
    by (simp add: extract_loop_append pre)
  then show ?thesis
    by (simp add: extract_error_sections_def)
qed


text \<open>
  C9. Every section that \<open>extract_error_sections\<close> returns is either a block, the lines
  of which come from the input and are joined by newlines: a line that matches the
  section-start pattern, followed only by lines that satisfy the continuation test; or
  it is a single input line that the build-error pattern finds. A block that is still
  open at the end of the input, a section start followed by continuation lines only, is
  flushed: it is the last section returned.
\<close>

theorem extract_error_sections_shape:
  "(\<forall>s \<in> set (extract_error_sections lines).
      (\<exists>l ls. s = join NL (l # ls) \<and> SECTION_START_RE_match l \<and> set (l # ls) \<subseteq> set lines
         \<and> (\<forall>c \<in> set ls. is_continuation c))
      \<or> (s \<in> set lines \<and> BUILD_ERROR_RE_search s))
   \<and> (SECTION_START_RE_match l
        \<and> (\<forall>c \<in> set ls. is_continuation c \<and> \<not> SECTION_START_RE_match c) \<longrightarrow>
      (\<exists>S. extract_error_sections (pre @ l # ls) = S @ [join NL (l # ls)]))"
proof -
  have shape: "\<forall>s \<in> set (extract_error_sections lines).
      (\<exists>l ls. s = join NL (l # ls) \<and> SECTION_START_RE_match l \<and> set (l # ls) \<subseteq> set lines
         \<and> (\<forall>c \<in> set ls. is_continuation c))
      \<or> (s \<in> set lines \<and> BUILD_ERROR_RE_search s)"
  proof
    fix s
    assume "s \<in> set (extract_error_sections lines)"
    with extract_sections_ok [of lines] have "section_ok (set lines) s"
      by (simp add: list_all_iff)
    then consider b where "s = join NL b" "block_lines b" "set b \<subseteq> set lines"
      | "s \<in> set lines" "BUILD_ERROR_RE_search s"
      unfolding section_ok_def by blast
    then show "(\<exists>l ls. s = join NL (l # ls) \<and> SECTION_START_RE_match l
          \<and> set (l # ls) \<subseteq> set lines \<and> (\<forall>c \<in> set ls. is_continuation c))
        \<or> (s \<in> set lines \<and> BUILD_ERROR_RE_search s)"
    proof cases
      case 1
      from 1(2) obtain l ls where b: "b = l # ls" "SECTION_START_RE_match l"
        "\<forall>c \<in> set ls. is_continuation c"
        by (cases b) (auto simp add: block_lines_def list_all_iff)
      with 1(1,3) show ?thesis
        by blast
    next
      case 2
      then show ?thesis
        by blast
    qed
  qed
  have flush: "SECTION_START_RE_match l
        \<and> (\<forall>c \<in> set ls. is_continuation c \<and> \<not> SECTION_START_RE_match c) \<longrightarrow>
      (\<exists>S. extract_error_sections (pre @ l # ls) = S @ [join NL (l # ls)])"
    using extract_trailing [of l ls pre] by (simp add: list_all_iff)
  from shape flush show ?thesis
    by blast
qed

lemma extract_example:
  "extract_error_sections [''Compiling'', ''error[E0425]: no x'', '' --> a.rs:1:1'', ''done'',
      ''[cargo-make] ERROR - fail'']
    = [''error[E0425]: no x'' @ NL @ '' --> a.rs:1:1'', ''[cargo-make] ERROR - fail'']"
  by code_simp

theorem extract_error_sections_shape_witness:
  "(\<exists>l ls. ''error[E0425]: no x'' @ NL @ '' --> a.rs:1:1'' = join NL (l # ls)
      \<and> SECTION_START_RE_match l
      \<and> set (l # ls) \<subseteq> set [''Compiling'', ''error[E0425]: no x'', '' --> a.rs:1:1'', ''done'',
          ''[cargo-make] ERROR - fail'']
      \<and> list_all is_continuation ls)
   \<and> BUILD_ERROR_RE_search ''[cargo-make] ERROR - fail''
   \<and> (\<exists>S. extract_error_sections ([''ok''] @ ''warning: w'' # [''  = note: y''])
        = S @ [join NL (''warning: w'' # [''  = note: y''])])"
proof -
  let ?lines = "[''Compiling'', ''error[E0425]: no x'', '' --> a.rs:1:1'', ''done'',
      ''[cargo-make] ERROR - fail'']"
  let ?s = "''error[E0425]: no x'' @ NL @ '' --> a.rs:1:1''"
  have mem: "?s \<in> set (extract_error_sections ?lines)"
    "''[cargo-make] ERROR - fail'' \<in> set (extract_error_sections ?lines)"
    unfolding extract_example by simp_all
  have notline: "?s \<notin> set ?lines"
    by (simp add: NL_def)
  have start: "\<not> SECTION_START_RE_match ''[cargo-make] ERROR - fail''"
    by code_simp
  have be: "BUILD_ERROR_RE_search ''[cargo-make] ERROR - fail''"
    by code_simp
  have hyp: "SECTION_START_RE_match ''warning: w''
      \<and> (\<forall>c \<in> set [''  = note: y'']. is_continuation c \<and> \<not> SECTION_START_RE_match c)"
    by code_simp
  note t = extract_error_sections_shape [of ?lines "''warning: w''" "[''  = note: y'']" "[''ok'']"]
  from bspec [OF t [THEN conjunct1] mem(1)] notline
  have block: "\<exists>l ls. ?s = join NL (l # ls) \<and> SECTION_START_RE_match l
      \<and> set (l # ls) \<subseteq> set ?lines \<and> (\<forall>c \<in> set ls. is_continuation c)"
    by blast
  from mp [OF t [THEN conjunct2] hyp]
  have fl: "\<exists>S. extract_error_sections ([''ok''] @ ''warning: w'' # [''  = note: y''])
      = S @ [join NL (''warning: w'' # [''  = note: y''])]" .
  from block be fl show ?thesis
    unfolding list_all_iff by blast
qed

end
